theory Spec2Isabelle
  imports Complex_Main "HOL-Library.Signed_Division"
begin

section \<open>Data model of the routing-resource graph and the draw state\<close>

text \<open>
  The embedding follows \<open>vpr/SRC/draw/draw.cpp\<close>. C++ \<open>float\<close> coordinates are
  modelled as exact reals (rounding is not modelled); \<open>int\<close> and \<open>short\<close> values
  as unbounded integers, since none of the modelled code does arithmetic that can
  overflow on admissible graphs. Indices of RR nodes that are used to subscript
  arrays are natural numbers; the source does no bounds checking, so every theorem
  that reads or writes an array states the in-range condition it relies on.
\<close>

datatype t_rr_type = SOURCE | SINK | IPIN | OPIN | CHANX | CHANY

datatype e_direction = INC_DIRECTION | DEC_DIRECTION | BI_DIRECTION

datatype error =
  AssertionFailed | UnexpectedSide | DivisionByZero | NullPointer | OutOfRange |
  UnexpectedConnection | UnexpectedType

text \<open>
  \<open>t_rr_node\<close>: the accessors \<open>get_xlow\<close>, \<open>get_xhigh\<close>, \<open>get_ylow\<close>, \<open>get_yhigh\<close>,
  \<open>get_ptc_num\<close>, \<open>get_direction\<close> and the parallel arrays \<open>edges\<close> and \<open>switches\<close>;
  \<open>get_num_edges\<close> is the length of \<open>edges\<close>.
\<close>

record t_rr_node =
  rr_type :: t_rr_type
  xlow :: int
  xhigh :: int
  ylow :: int
  yhigh :: int
  ptc_num :: int
  direction :: e_direction
  edges :: "nat list"
  switches :: "int list"

definition get_num_edges :: "t_rr_node \<Rightarrow> nat" where
  "get_num_edges n = length (edges n)"

text \<open>
  \<open>t_draw_coords\<close>: the tile position tables (arrays of \<open>float\<close> subscripted by a
  grid coordinate, modelled as a store from indices to values), the tile width and
  the pin half-size.
\<close>

record t_draw_coords =
  tile_x :: "int \<Rightarrow> real"
  tile_y :: "int \<Rightarrow> real"
  tile_width :: real
  pin_size :: real

record t_bound_box =
  left_bb :: real
  right_bb :: real
  bottom_bb :: real
  top_bb :: real

definition zero_bound_box :: t_bound_box where
  "zero_bound_box = \<lparr>left_bb = 0, right_bb = 0, bottom_bb = 0, top_bb = 0\<rparr>"

section \<open>Channel geometry\<close>

text \<open>
  \<open>draw_get_rr_chan_bbox\<close> (lines 1442-1477): starts from a default-constructed
  (all-zero) box and fills it in for the two channel types only.
\<close>

definition draw_get_rr_chan_bbox :: "t_draw_coords \<Rightarrow> t_rr_node \<Rightarrow> t_bound_box" where
  "draw_get_rr_chan_bbox dc n =
     (case rr_type n of
        CHANX \<Rightarrow>
          \<lparr>left_bb = tile_x dc (xlow n),
           right_bb = tile_x dc (xhigh n) + tile_width dc,
           bottom_bb = tile_y dc (ylow n) + tile_width dc + (1 + real_of_int (ptc_num n)),
           top_bb = tile_y dc (ylow n) + tile_width dc + (1 + real_of_int (ptc_num n))\<rparr>
      | CHANY \<Rightarrow>
          \<lparr>left_bb = tile_x dc (xlow n) + tile_width dc + (1 + real_of_int (ptc_num n)),
           right_bb = tile_x dc (xlow n) + tile_width dc + (1 + real_of_int (ptc_num n)),
           bottom_bb = tile_y dc (ylow n),
           top_bb = tile_y dc (yhigh n) + tile_width dc\<rparr>
      | _ \<Rightarrow> zero_bound_box)"

section \<open>Switch lookup\<close>

text \<open>
  \<open>find_switch\<close> (lines 2970-2978): scans the edges of \<open>prev_inode\<close> from index 0 and
  returns the switch stored beside the first edge that leads to \<open>inode\<close>; falling
  out of the loop hits \<open>VTR_ASSERT(false)\<close>.
\<close>

fun find_switch_loop :: "nat list \<Rightarrow> int list \<Rightarrow> nat \<Rightarrow> nat \<Rightarrow> error + int" where
  "find_switch_loop [] sw i inode = Inl AssertionFailed"
| "find_switch_loop (e # es) sw i inode =
     (if e = inode
      then (if i < length sw then Inr (sw ! i) else Inl OutOfRange)
      else find_switch_loop es sw (Suc i) inode)"

definition find_switch :: "t_rr_node list \<Rightarrow> nat \<Rightarrow> nat \<Rightarrow> error + int" where
  "find_switch rr_node prev_inode inode =
     (if prev_inode < length rr_node
      then find_switch_loop (edges (rr_node ! prev_inode)) (switches (rr_node ! prev_inode)) 0 inode
      else Inl OutOfRange)"

text \<open>
  The switch lookups of \<open>draw_partial_route\<close> (lines 1709-1717): one call of
  \<open>find_switch\<close> for every adjacent pair of the sequence, in order.
\<close>

fun draw_partial_route_switches :: "t_rr_node list \<Rightarrow> nat list \<Rightarrow> (error + int) list" where
  "draw_partial_route_switches rr_node (prev_node # inode # rest) =
     find_switch rr_node prev_node inode # draw_partial_route_switches rr_node (inode # rest)"
| "draw_partial_route_switches rr_node _ = []"


section \<open>Hit testing\<close>

text \<open>
  The device grid and the block types are declared outside \<open>draw.cpp\<close>; the hit tester
  reads \<open>grid[i][j].type\<close>, \<open>.width_offset\<close>, \<open>.height_offset\<close> and, of a type,
  \<open>pinloc[width][height][side][pin]\<close>, \<open>num_pins\<close> and \<open>capacity\<close>. They are taken as
  parameters, and so is the numbering of the \<open>e_side\<close> enumeration (\<open>side_of\<close> decodes
  the loop counter \<open>iside\<close>; a value that is none of the four sides reaches the
  \<open>default\<close> branch of the switch).
\<close>

datatype e_side = TOP | RIGHT | BOTTOM | LEFT

record t_type_descriptor =
  pinloc :: "int \<Rightarrow> int \<Rightarrow> int \<Rightarrow> int \<Rightarrow> bool"
  num_pins :: int
  capacity :: int

record t_grid_tile =
  tile_type :: t_type_descriptor
  width_offset :: int
  height_offset :: int

definition OPEN :: int where
  "OPEN = -1"

text \<open>
  \<open>draw_get_rr_pin_coords\<close> (lines 1553-1608). The two integer divisions truncate
  towards zero (\<open>sdiv\<close>); a zero divisor is undefined behaviour in the source and an
  error value here. An unexpected side throws.
\<close>

definition draw_get_rr_pin_coords ::
  "t_draw_coords \<Rightarrow> (int \<Rightarrow> int \<Rightarrow> t_grid_tile) \<Rightarrow> (int \<Rightarrow> e_side option) \<Rightarrow>
   t_rr_node \<Rightarrow> int \<Rightarrow> int \<Rightarrow> int \<Rightarrow> error + (real \<times> real)" where
  "draw_get_rr_pin_coords dc grid side_of node iside w_offset h_offset =
     (let i = xlow node + w_offset;
          j = ylow node + h_offset;
          xc = tile_x dc i;
          yc = tile_y dc j;
          ipin = ptc_num node;
          type = tile_type (grid i j)
      in if capacity type = 0 then Inl DivisionByZero
         else let pins_per_sub_tile = num_pins type sdiv capacity type
              in if pins_per_sub_tile = 0 then Inl DivisionByZero
                 else let k = ipin sdiv pins_per_sub_tile;
                          step = tile_width dc / real_of_int (num_pins type + capacity type);
                          offset = real_of_int (ipin + k + 1) * step
                      in (case side_of iside of
                            Some LEFT \<Rightarrow> Inr (xc, yc + offset)
                          | Some RIGHT \<Rightarrow> Inr (xc + tile_width dc, yc + offset)
                          | Some BOTTOM \<Rightarrow> Inr (xc + offset, yc)
                          | Some TOP \<Rightarrow> Inr (xc + offset, yc + tile_width dc)
                          | None \<Rightarrow> Inl UnexpectedSide))"

text \<open>The test \<open>type->pinloc[width_offset][height_offset][iside][ipin]\<close> of line 1968.\<close>

definition pin_on_side :: "(int \<Rightarrow> int \<Rightarrow> t_grid_tile) \<Rightarrow> t_rr_node \<Rightarrow> int \<Rightarrow> bool" where
  "pin_on_side grid node iside =
     pinloc (tile_type (grid (xlow node) (ylow node)))
       (width_offset (grid (xlow node) (ylow node)))
       (height_offset (grid (xlow node) (ylow node))) iside (ptc_num node)"

text \<open>The inner loop over \<open>iside\<close> (lines 1966-1981); \<open>Inr True\<close> is the early return.\<close>

fun check_pin_sides ::
  "t_draw_coords \<Rightarrow> (int \<Rightarrow> int \<Rightarrow> t_grid_tile) \<Rightarrow> (int \<Rightarrow> e_side option) \<Rightarrow>
   t_rr_node \<Rightarrow> real \<Rightarrow> real \<Rightarrow> int list \<Rightarrow> error + bool" where
  "check_pin_sides dc grid side_of node click_x click_y [] = Inr False"
| "check_pin_sides dc grid side_of node click_x click_y (iside # rest) =
     (if pin_on_side grid node iside
      then (case draw_get_rr_pin_coords dc grid side_of node iside
                   (width_offset (grid (xlow node) (ylow node)))
                   (height_offset (grid (xlow node) (ylow node))) of
              Inl e \<Rightarrow> Inl e
            | Inr (xcen, ycen) \<Rightarrow>
                if click_x \<ge> xcen - pin_size dc \<and> click_x \<le> xcen + pin_size dc \<and>
                   click_y \<ge> ycen - pin_size dc \<and> click_y \<le> ycen + pin_size dc
                then Inr True
                else check_pin_sides dc grid side_of node click_x click_y rest)
      else check_pin_sides dc grid side_of node click_x click_y rest)"

definition tolerance :: real where
  "tolerance = 3 / 10"

text \<open>The body of the loop over \<open>inode\<close>: the switch on the node type (lines 1953-2003).\<close>

definition check_rr_node ::
  "t_draw_coords \<Rightarrow> (int \<Rightarrow> int \<Rightarrow> t_grid_tile) \<Rightarrow> (int \<Rightarrow> e_side option) \<Rightarrow>
   t_rr_node \<Rightarrow> real \<Rightarrow> real \<Rightarrow> error + bool" where
  "check_rr_node dc grid side_of node click_x click_y =
     (if rr_type node = IPIN \<or> rr_type node = OPIN
      then check_pin_sides dc grid side_of node click_x click_y [0, 1, 2, 3]
      else if rr_type node = CHANX \<or> rr_type node = CHANY
      then Inr (click_x \<ge> left_bb (draw_get_rr_chan_bbox dc node) - tolerance \<and>
                click_x \<le> right_bb (draw_get_rr_chan_bbox dc node) + tolerance \<and>
                click_y \<ge> bottom_bb (draw_get_rr_chan_bbox dc node) - tolerance \<and>
                click_y \<le> top_bb (draw_get_rr_chan_bbox dc node) + tolerance)
      else Inr False)"

fun draw_check_rr_node_hit_from ::
  "t_draw_coords \<Rightarrow> (int \<Rightarrow> int \<Rightarrow> t_grid_tile) \<Rightarrow> (int \<Rightarrow> e_side option) \<Rightarrow>
   real \<Rightarrow> real \<Rightarrow> int \<Rightarrow> t_rr_node list \<Rightarrow> error + int" where
  "draw_check_rr_node_hit_from dc grid side_of click_x click_y inode [] = Inr OPEN"
| "draw_check_rr_node_hit_from dc grid side_of click_x click_y inode (node # rest) =
     (case check_rr_node dc grid side_of node click_x click_y of
        Inl e \<Rightarrow> Inl e
      | Inr True \<Rightarrow> Inr inode
      | Inr False \<Rightarrow> draw_check_rr_node_hit_from dc grid side_of click_x click_y (inode + 1) rest)"

text \<open>\<open>draw_check_rr_node_hit\<close> (lines 1945-2006): the scan starts at node 0.\<close>

definition draw_check_rr_node_hit ::
  "t_draw_coords \<Rightarrow> (int \<Rightarrow> int \<Rightarrow> t_grid_tile) \<Rightarrow> (int \<Rightarrow> e_side option) \<Rightarrow>
   t_rr_node list \<Rightarrow> real \<Rightarrow> real \<Rightarrow> error + int" where
  "draw_check_rr_node_hit dc grid side_of rr_node click_x click_y =
     draw_check_rr_node_hit_from dc grid side_of click_x click_y 0 rr_node"

text \<open>
  The test region of a node as the specification words it: for a pin, the squares
  of half-size \<open>pin_size\<close> around the drawn pin coordinate on each side where the pin
  exists; for a channel wire, its bounding box grown by 0.3 on all four sides;
  nothing for a source or a sink.
\<close>

definition in_square :: "real \<times> real \<Rightarrow> real \<Rightarrow> real \<Rightarrow> real \<Rightarrow> bool" where
  "in_square c h x y = (\<bar>x - fst c\<bar> \<le> h \<and> \<bar>y - snd c\<bar> \<le> h)"

definition pin_region ::
  "t_draw_coords \<Rightarrow> (int \<Rightarrow> int \<Rightarrow> t_grid_tile) \<Rightarrow> (int \<Rightarrow> e_side option) \<Rightarrow>
   t_rr_node \<Rightarrow> real \<Rightarrow> real \<Rightarrow> bool" where
  "pin_region dc grid side_of node x y =
     list_ex (\<lambda>iside. pin_on_side grid node iside \<and>
        (case draw_get_rr_pin_coords dc grid side_of node iside
                (width_offset (grid (xlow node) (ylow node)))
                (height_offset (grid (xlow node) (ylow node))) of
           Inl e \<Rightarrow> False
         | Inr c \<Rightarrow> in_square c (pin_size dc) x y)) [0, 1, 2, 3]"

definition chan_region :: "t_draw_coords \<Rightarrow> t_rr_node \<Rightarrow> real \<Rightarrow> real \<Rightarrow> bool" where
  "chan_region dc node x y =
     (left_bb (draw_get_rr_chan_bbox dc node) - 3 / 10 \<le> x \<and>
      x \<le> right_bb (draw_get_rr_chan_bbox dc node) + 3 / 10 \<and>
      bottom_bb (draw_get_rr_chan_bbox dc node) - 3 / 10 \<le> y \<and>
      y \<le> top_bb (draw_get_rr_chan_bbox dc node) + 3 / 10)"

definition hit_region ::
  "t_draw_coords \<Rightarrow> (int \<Rightarrow> int \<Rightarrow> t_grid_tile) \<Rightarrow> (int \<Rightarrow> e_side option) \<Rightarrow>
   t_rr_node \<Rightarrow> real \<Rightarrow> real \<Rightarrow> bool" where
  "hit_region dc grid side_of node x y =
     (case rr_type node of
        IPIN \<Rightarrow> pin_region dc grid side_of node x y
      | OPIN \<Rightarrow> pin_region dc grid side_of node x y
      | CHANX \<Rightarrow> chan_region dc node x y
      | CHANY \<Rightarrow> chan_region dc node x y
      | SOURCE \<Rightarrow> False
      | SINK \<Rightarrow> False)"

text \<open>
  The pin lookups of a node cannot fail: the four loop counters are sides, and the
  block type at the pin's tile has a non-zero capacity and at least one pin per
  sub-tile.
\<close>

definition pin_tables_ok ::
  "(int \<Rightarrow> int \<Rightarrow> t_grid_tile) \<Rightarrow> (int \<Rightarrow> e_side option) \<Rightarrow> t_rr_node \<Rightarrow> bool" where
  "pin_tables_ok grid side_of node =
     (list_all (\<lambda>iside. side_of iside \<noteq> None) [0, 1, 2, 3] \<and>
      capacity (tile_type (grid (xlow node + width_offset (grid (xlow node) (ylow node)))
                                (ylow node + height_offset (grid (xlow node) (ylow node))))) \<noteq> 0 \<and>
      num_pins (tile_type (grid (xlow node + width_offset (grid (xlow node) (ylow node)))
                                (ylow node + height_offset (grid (xlow node) (ylow node)))))
        sdiv
      capacity (tile_type (grid (xlow node + width_offset (grid (xlow node) (ylow node)))
                                (ylow node + height_offset (grid (xlow node) (ylow node))))) \<noteq> 0)"

definition is_pin :: "t_rr_node \<Rightarrow> bool" where
  "is_pin node = (rr_type node = IPIN \<or> rr_type node = OPIN)"

section \<open>Highlight state\<close>

text \<open>
  The palette entries that the modelled code names, and any other colour. The macro
  \<open>DEFAULT_RR_NODE_COLOR\<close> is \<open>BLACK\<close> (line 55). \<open>DRIVES_IT_COLOR\<close> is defined in a
  header outside \<open>draw.cpp\<close> and is a parameter (\<open>drives_it\<close>) of the functions that
  use it.
\<close>

datatype t_color = BLACK | WHITE | MAGENTA | BLUE | RED | PINK | LIGHTSKYBLUE | OTHER_COLOR nat

definition DEFAULT_RR_NODE_COLOR :: t_color where
  "DEFAULT_RR_NODE_COLOR = BLACK"

datatype e_draw_rr_toggle =
  DRAW_NO_RR | DRAW_ALL_RR | DRAW_ALL_BUT_BUFFERS_RR | DRAW_NODES_AND_SBOX_RR | DRAW_NODES_RR

record t_draw_rr_node =
  color :: t_color
  node_highlighted :: bool

text \<open>
  The enumerations of the draw state are declared outside \<open>draw.cpp\<close>; their
  constants are the ones the file names. \<open>DRAW_NO_NETS\<close> is taken to be the zero of
  \<open>e_draw_nets\<close>, so that the tests \<open>!show_nets\<close> and \<open>if (show_nets)\<close> of
  \<open>highlight_rr_nodes\<close> compare with it.
\<close>

datatype e_draw_nets = DRAW_NO_NETS | DRAW_NETS | DRAW_LOGICAL_CONNECTIONS

datatype pic_type = NO_PICTURE | PLACEMENT | ROUTING

datatype e_draw_crit_path =
  DRAW_NO_CRIT_PATH | DRAW_CRIT_PATH_FLYLINES | DRAW_CRIT_PATH_FLYLINES_DELAYS |
  DRAW_CRIT_PATH_ROUTING | DRAW_CRIT_PATH_ROUTING_DELAYS

datatype e_route_type = GLOBAL | DETAILED

datatype e_draw_net_type = ALL_NETS | HIGHLIGHTED

record t_draw_state =
  draw_rr_toggle :: e_draw_rr_toggle
  show_nets :: e_draw_nets
  draw_rr_node :: "t_draw_rr_node list"
  net_color :: "t_color list"
  pic_on_screen :: pic_type
  show_crit_path :: e_draw_crit_path
  draw_route_type :: e_route_type

text \<open>The two assignments \<open>draw_rr_node[i].color = c; draw_rr_node[i].node_highlighted = h\<close>.\<close>

definition set_rr_node :: "t_draw_rr_node list \<Rightarrow> nat \<Rightarrow> t_color \<Rightarrow> bool \<Rightarrow> t_draw_rr_node list" where
  "set_rr_node d i c h = d[i := (d ! i)\<lparr>color := c, node_highlighted := h\<rparr>]"

text \<open>
  \<open>draw_highlight_fan_in_fan_out\<close> (lines 1897-1936). The colour of \<open>hit_node\<close> is read
  again from the array in every iteration, as the source does.
\<close>

definition highlight_fanout_edge ::
  "t_color \<Rightarrow> nat \<Rightarrow> nat \<Rightarrow> t_draw_rr_node list \<Rightarrow> t_draw_rr_node list" where
  "highlight_fanout_edge drives_it hit_node fanout_node d =
     (if color (d ! hit_node) = MAGENTA then set_rr_node d fanout_node drives_it True
      else if color (d ! hit_node) = WHITE then set_rr_node d fanout_node DEFAULT_RR_NODE_COLOR False
      else d)"

definition highlight_fanin_edge ::
  "nat \<Rightarrow> nat \<Rightarrow> nat \<Rightarrow> t_draw_rr_node list \<Rightarrow> t_draw_rr_node list" where
  "highlight_fanin_edge hit_node inode fanout_node d =
     (if fanout_node = hit_node
      then (if color (d ! hit_node) = MAGENTA then set_rr_node d inode BLUE True
            else if color (d ! hit_node) = WHITE then set_rr_node d inode DEFAULT_RR_NODE_COLOR False
            else d)
      else d)"

definition highlight_fanin_node ::
  "t_rr_node list \<Rightarrow> nat \<Rightarrow> nat \<Rightarrow> t_draw_rr_node list \<Rightarrow> t_draw_rr_node list" where
  "highlight_fanin_node rr_node hit_node inode d =
     fold (highlight_fanin_edge hit_node inode) (edges (rr_node ! inode)) d"

definition draw_highlight_fan_in_fan_out ::
  "t_color \<Rightarrow> t_rr_node list \<Rightarrow> nat \<Rightarrow> t_draw_rr_node list \<Rightarrow> t_draw_rr_node list" where
  "draw_highlight_fan_in_fan_out drives_it rr_node hit_node d =
     fold (highlight_fanin_node rr_node hit_node) [0 ..< length rr_node]
       (fold (highlight_fanout_edge drives_it hit_node) (edges (rr_node ! hit_node)) d)"

text \<open>
  \<open>highlight_rr_nodes\<close>, the part that runs on a hit (\<open>hit_node != OPEN\<close>): the
  transition of the node that was hit (lines 2037-2058) and the gated call of the
  propagation (lines 2061-2064). Messages and redrawing are not modelled.
\<close>

definition toggle_hit_node :: "nat \<Rightarrow> t_draw_rr_node list \<Rightarrow> t_draw_rr_node list" where
  "toggle_hit_node hit_node d =
     (if color (d ! hit_node) \<noteq> MAGENTA then set_rr_node d hit_node MAGENTA True
      else set_rr_node d hit_node WHITE False)"

definition highlight_rr_nodes_hit ::
  "t_color \<Rightarrow> t_rr_node list \<Rightarrow> nat \<Rightarrow> t_draw_state \<Rightarrow> t_draw_state" where
  "highlight_rr_nodes_hit drives_it rr_node hit_node st =
     (if draw_rr_toggle st \<noteq> DRAW_NO_RR
      then st\<lparr>draw_rr_node :=
                draw_highlight_fan_in_fan_out drives_it rr_node hit_node
                  (toggle_hit_node hit_node (draw_rr_node st))\<rparr>
      else st\<lparr>draw_rr_node := toggle_hit_node hit_node (draw_rr_node st)\<rparr>)"

text \<open>Graph relations used to state what the propagation does.\<close>

definition is_fanout :: "t_rr_node list \<Rightarrow> nat \<Rightarrow> nat \<Rightarrow> bool" where
  "is_fanout rr_node n m = (m \<in> set (edges (rr_node ! n)))"

definition is_fanin :: "t_rr_node list \<Rightarrow> nat \<Rightarrow> nat \<Rightarrow> bool" where
  "is_fanin rr_node n p = (p < length rr_node \<and> n \<in> set (edges (rr_node ! p)))"

text \<open>Every edge of the graph leads to a node of the graph.\<close>

definition edges_in_range :: "t_rr_node list \<Rightarrow> bool" where
  "edges_in_range rr_node = list_all (\<lambda>n. list_all (\<lambda>m. m < length rr_node) (edges n)) rr_node"

subsection \<open>Net highlighting\<close>

text \<open>
  \<open>highlight_nets\<close> (lines 1866-1889). A net's trace is the linked list
  \<open>trace_head[inet]\<close>, here the list of its node indices (\<open>NULL\<close> is the empty list).
  The scan of one trace: a \<open>MAGENTA\<close> node colours the net and the scan goes on; a
  \<open>WHITE\<close> node resets the net to \<open>BLACK\<close> and ends the scan. The status message is not
  modelled.
\<close>

fun highlight_net_scan :: "t_draw_rr_node list \<Rightarrow> nat list \<Rightarrow> t_color \<Rightarrow> t_color" where
  "highlight_net_scan d [] c = c"
| "highlight_net_scan d (i # tptr) c =
     (if color (d ! i) = MAGENTA then highlight_net_scan d tptr (color (d ! i))
      else if color (d ! i) = WHITE then BLACK
      else highlight_net_scan d tptr c)"

definition highlight_nets :: "nat list list \<Rightarrow> t_draw_state \<Rightarrow> t_draw_state" where
  "highlight_nets trace_head st =
     st\<lparr>net_color :=
          fold (\<lambda>inet nc. nc[inet := highlight_net_scan (draw_rr_node st) (trace_head ! inet) (nc ! inet)])
            [0 ..< length trace_head] (net_color st)\<rparr>"

section \<open>Net traces\<close>




section \<open>Path finding in the route tree\<close>

text \<open>
  \<open>t_rt_node\<close>: the RR node index \<open>inode\<close> and the linked list \<open>u.child_list\<close> of children. The tree is built
  by \<open>traceback_to_route_tree\<close>, outside \<open>draw.cpp\<close>, and is an input here.
\<close>

datatype t_rt_node = Rt_node (rt_inode: nat) (rt_child_list: "t_rt_node list")

text \<open>
  \<open>trace_routed_connection_rr_nodes_recurr\<close> (lines 2946-2967): the vector
  \<open>rr_nodes_on_path\<close> is passed in and returned beside the boolean result.
\<close>

fun trace_routed_connection_rr_nodes_recurr :: "t_rt_node \<Rightarrow> nat \<Rightarrow> nat list \<Rightarrow> bool \<times> nat list"
  and recurr_child_list :: "nat \<Rightarrow> t_rt_node list \<Rightarrow> nat \<Rightarrow> nat list \<Rightarrow> bool \<times> nat list" where
  "trace_routed_connection_rr_nodes_recurr (Rt_node i children) sink_rr_node rr_nodes_on_path =
     (if i = sink_rr_node then (True, rr_nodes_on_path @ [sink_rr_node])
      else recurr_child_list i children sink_rr_node rr_nodes_on_path)"
| "recurr_child_list i [] sink_rr_node rr_nodes_on_path = (False, rr_nodes_on_path)"
| "recurr_child_list i (child_rt_node # edge) sink_rr_node rr_nodes_on_path =
     (case trace_routed_connection_rr_nodes_recurr child_rt_node sink_rr_node rr_nodes_on_path of
        (True, path) \<Rightarrow> (True, path @ [i])
      | (False, path) \<Rightarrow> recurr_child_list i edge sink_rr_node path)"

text \<open>
  \<open>trace_routed_connection_rr_nodes\<close> (lines 2916-2941), from the route tree on:
  collect from the root into an empty vector and reverse.
\<close>

definition trace_routed_connection_rr_nodes :: "t_rt_node \<Rightarrow> nat \<Rightarrow> nat list" where
  "trace_routed_connection_rr_nodes rt_root sink_rr_node =
     rev (snd (trace_routed_connection_rr_nodes_recurr rt_root sink_rr_node []))"

text \<open>The RR nodes of a route tree, and the node lists that walk down parent-to-child edges from its root.\<close>

fun rt_inodes :: "t_rt_node \<Rightarrow> nat set" where
  "rt_inodes (Rt_node i children) = insert i (\<Union>c \<in> set children. rt_inodes c)"

fun rt_path :: "t_rt_node \<Rightarrow> nat list \<Rightarrow> bool" where
  "rt_path (Rt_node i children) [] = False"
| "rt_path (Rt_node i children) [a] = (a = i)"
| "rt_path (Rt_node i children) (a # b # rest) =
     (a = i \<and> (\<exists>c \<in> set children. rt_path c (b # rest)))"

section \<open>Edges between channel wires on the same axis\<close>

text \<open>
  \<open>draw_chanx_to_chanx_edge\<close> (lines 1266-1349) and \<open>draw_chany_to_chany_edge\<close>
  (lines 1352-1434), as the end points \<open>((x1, y1), (x2, y2))\<close> of the line they
  draw. The two \<open>VTR_ASSERT\<close>s of the x version are error results.
\<close>

type_synonym segment = "(real \<times> real) \<times> (real \<times> real)"

definition draw_chanx_to_chanx_edge ::
  "t_draw_coords \<Rightarrow> t_rr_node \<Rightarrow> t_rr_node \<Rightarrow> int \<Rightarrow> error + segment" where
  "draw_chanx_to_chanx_edge dc from_node to_node to_track =
     (let from_chan = draw_get_rr_chan_bbox dc from_node;
          to_chan = draw_get_rr_chan_bbox dc to_node;
          y1 = bottom_bb from_chan;
          y2 = bottom_bb to_chan;
          from_xlow = xlow from_node;
          from_xhigh = xhigh from_node;
          to_xlow = xlow to_node;
          to_xhigh = xhigh to_node
      in if to_xhigh < from_xlow then Inr ((left_bb from_chan, y1), (right_bb to_chan, y2))
         else if to_xlow > from_xhigh then Inr ((right_bb from_chan, y1), (left_bb to_chan, y2))
         else if direction to_node \<noteq> BI_DIRECTION
         then (if to_track mod 2 = 0
               then (if from_xlow < to_xlow
                     then Inr ((tile_x dc (to_xlow - 1) + tile_width dc, y1), (left_bb to_chan, y2))
                     else Inl AssertionFailed)
               else (if from_xhigh > to_xhigh
                     then Inr ((tile_x dc (to_xhigh + 1), y1), (right_bb to_chan, y2))
                     else Inl AssertionFailed))
         else if to_xlow < from_xlow
         then Inr ((left_bb from_chan, y1), (tile_x dc (from_xlow - 1) + tile_width dc, y2))
         else if from_xlow < to_xlow
         then Inr ((tile_x dc (to_xlow - 1) + tile_width dc, y1), (left_bb to_chan, y2))
         else if to_xhigh > from_xhigh
         then Inr ((right_bb from_chan, y1), (tile_x dc (from_xhigh + 1), y2))
         else if from_xhigh > to_xhigh
         then Inr ((tile_x dc (to_xhigh + 1), y1), (right_bb to_chan, y2))
         else Inr ((left_bb from_chan, y1), (left_bb from_chan + tile_width dc, y2)))"

definition draw_chany_to_chany_edge ::
  "t_draw_coords \<Rightarrow> t_rr_node \<Rightarrow> t_rr_node \<Rightarrow> int \<Rightarrow> segment" where
  "draw_chany_to_chany_edge dc from_node to_node to_track =
     (let from_chan = draw_get_rr_chan_bbox dc from_node;
          to_chan = draw_get_rr_chan_bbox dc to_node;
          from_ylow = ylow from_node;
          from_yhigh = yhigh from_node;
          to_ylow = ylow to_node;
          to_yhigh = yhigh to_node;
          x1 = left_bb from_chan;
          x2 = left_bb to_chan
      in if to_yhigh < from_ylow then ((x1, bottom_bb from_chan), (x2, top_bb to_chan))
         else if to_ylow > from_yhigh then ((x1, top_bb from_chan), (x2, bottom_bb to_chan))
         else if direction to_node \<noteq> BI_DIRECTION
         then (if to_track mod 2 = 0
               then ((x1, tile_y dc (to_ylow - 1) + tile_width dc), (x2, bottom_bb to_chan))
               else ((x1, tile_y dc (to_yhigh + 1)), (x2, top_bb to_chan)))
         else if to_ylow < from_ylow
         then ((x1, bottom_bb from_chan), (x2, tile_y dc (from_ylow - 1) + tile_width dc))
         else if from_ylow < to_ylow
         then ((x1, tile_y dc (to_ylow - 1) + tile_width dc), (x2, bottom_bb to_chan))
         else if to_yhigh > from_yhigh
         then ((x1, top_bb from_chan), (x2, tile_y dc (from_yhigh + 1)))
         else if from_yhigh > to_yhigh
         then ((x1, tile_y dc (to_yhigh + 1)), (x2, top_bb to_chan))
         else ((x1, bottom_bb from_chan), (x2, bottom_bb from_chan + tile_width dc)))"

text \<open>Two segments have the same end points, in either order.\<close>

definition same_segment :: "segment \<Rightarrow> segment \<Rightarrow> bool" where
  "same_segment s t = ((fst s = fst t \<and> snd s = snd t) \<or> (fst s = snd t \<and> snd s = fst t))"

definition ranges_overlap :: "int \<Rightarrow> int \<Rightarrow> int \<Rightarrow> int \<Rightarrow> bool" where
  "ranges_overlap alow ahigh blow bhigh = (\<not> bhigh < alow \<and> \<not> blow > ahigh)"

section \<open>Drawing routes and the routing-resource graph\<close>

text \<open>
  The routines below redraw the screen. They write node colours, and they can stop
  the program: \<open>VTR_ASSERT\<close> and \<open>vpr_throw\<close> end the redraw. The stops that depend
  on the RR graph alone are error results here: a missing edge in \<open>find_switch\<close>,
  a connection between node types that the dispatch of \<open>draw_partial_route\<close>,
  \<open>draw_rr_edges\<close> or \<open>draw_pin_to_chan_edge\<close> does not know, a node type without a
  track in \<open>get_track_num\<close>, and the two assertions of \<open>draw_chanx_to_chanx_edge\<close>. The
  routines that only put pins, wires, blocks and labels on the screen
  (\<open>draw_rr_pin\<close>, \<open>draw_rr_chanx\<close>, \<open>draw_rr_chany\<close>, \<open>draw_pin_to_pin\<close>,
  \<open>draw_pin_to_chan_edge\<close>, \<open>draw_chanx_to_chany_edge\<close>, \<open>drawplace\<close>, the sub-block,
  congestion and logical-connection overlays) do not write the highlight state;
  their assertions about the placement of pins on the device are outside this
  model, which gives the state a redraw leaves when those calls return.
\<close>

text \<open>
  The global data that the redraw reads: the draw coordinates, the device grid and
  the side numbering, the RR graph, per net its traceback and its \<open>is_global\<close>
  flag, the colour macros of the headers (\<open>DRIVES_IT_COLOR\<close>, \<open>DRIVEN_BY_IT_COLOR\<close>,
  \<open>crit_path_colors::net::HEAD\<close> and \<open>TAIL\<close>), and the critical-path overlay, which
  walks the timing graph of the timing analyzer and is taken as a function on the
  draw state.
\<close>

record t_globals =
  g_draw_coords :: t_draw_coords
  g_grid :: "int \<Rightarrow> int \<Rightarrow> t_grid_tile"
  g_side_of :: "int \<Rightarrow> e_side option"
  g_rr_node :: "t_rr_node list"
  g_trace_head :: "nat list list"
  g_net_is_global :: "bool list"
  g_drives_it_color :: t_color
  g_driven_by_it_color :: t_color
  g_crit_head_color :: t_color
  g_crit_tail_color :: t_color
  g_timing_path_overlay :: "t_draw_state \<Rightarrow> error + t_draw_state"

subsection \<open>Partial routes\<close>

text \<open>
  The two tables \<open>chanx_track\<close> and \<open>chany_track\<close> of \<open>draw_partial_route\<close>, used when
  the route type is \<open>GLOBAL\<close>: every entry is set to \<open>-1\<close> at the start of a call
  and counted up at each wire of the sequence.
\<close>

type_synonym track_table = "int \<Rightarrow> int \<Rightarrow> int"

definition unassigned_tracks :: "track_table \<times> track_table" where
  "unassigned_tracks = ((\<lambda>i j. - 1), (\<lambda>i j. - 1))"

definition next_track :: "track_table \<Rightarrow> int \<Rightarrow> int \<Rightarrow> track_table" where
  "next_track t i j = t(i := (t i)(j := t i j + 1))"

text \<open>\<open>get_track_num\<close> (lines 1811-1839).\<close>

definition get_track_num ::
  "e_route_type \<Rightarrow> t_rr_node \<Rightarrow> track_table \<times> track_table \<Rightarrow> error + int" where
  "get_track_num route_type node tracks =
     (if route_type = DETAILED then Inr (ptc_num node)
      else (case rr_type node of
              CHANX \<Rightarrow> Inr (fst tracks (xlow node) (ylow node))
            | CHANY \<Rightarrow> Inr (snd tracks (xlow node) (ylow node))
            | _ \<Rightarrow> Inl UnexpectedType))"

text \<open>
  One iteration of the loop of \<open>draw_partial_route\<close> (lines 1709-1808), for the pair
  \<open>(prev_node, inode)\<close>: the switch lookup, then the dispatch on the type of
  \<open>inode\<close> and, for a wire, on the type of \<open>prev_node\<close>. An input pin is joined to
  an output pin by \<open>draw_pin_to_pin\<close> and to anything else by
  \<open>draw_pin_to_chan_edge\<close>, which throws (line 2552) when that is not a wire. The
  result is the pair of track tables after the iteration.
\<close>

definition draw_partial_route_step ::
  "t_draw_coords \<Rightarrow> e_route_type \<Rightarrow> t_rr_node list \<Rightarrow> track_table \<times> track_table \<Rightarrow>
   nat \<Rightarrow> nat \<Rightarrow> error + (track_table \<times> track_table)" where
  "draw_partial_route_step dc route_type rr_node tracks prev_node inode =
     (case find_switch rr_node prev_node inode of
        Inl e \<Rightarrow> Inl e
      | Inr switch_type \<Rightarrow>
          (case rr_type (rr_node ! inode) of
             CHANX \<Rightarrow>
               (let tracks' =
                      (if route_type = GLOBAL
                       then (next_track (fst tracks) (xlow (rr_node ! inode)) (ylow (rr_node ! inode)),
                             snd tracks)
                       else tracks)
                in case get_track_num route_type (rr_node ! inode) tracks' of
                     Inl e \<Rightarrow> Inl e
                   | Inr itrack \<Rightarrow>
                       (case rr_type (rr_node ! prev_node) of
                          CHANX \<Rightarrow>
                            (case draw_chanx_to_chanx_edge dc (rr_node ! prev_node)
                                    (rr_node ! inode) itrack of
                               Inl e \<Rightarrow> Inl e
                             | Inr line \<Rightarrow> Inr tracks')
                        | CHANY \<Rightarrow>
                            (case get_track_num route_type (rr_node ! prev_node) tracks' of
                               Inl e \<Rightarrow> Inl e
                             | Inr prev_track \<Rightarrow> Inr tracks')
                        | OPIN \<Rightarrow> Inr tracks'
                        | _ \<Rightarrow> Inl UnexpectedConnection))
           | CHANY \<Rightarrow>
               (let tracks' =
                      (if route_type = GLOBAL
                       then (fst tracks,
                             next_track (snd tracks) (xlow (rr_node ! inode)) (ylow (rr_node ! inode)))
                       else tracks)
                in case get_track_num route_type (rr_node ! inode) tracks' of
                     Inl e \<Rightarrow> Inl e
                   | Inr itrack \<Rightarrow>
                       (case rr_type (rr_node ! prev_node) of
                          CHANX \<Rightarrow>
                            (case get_track_num route_type (rr_node ! prev_node) tracks' of
                               Inl e \<Rightarrow> Inl e
                             | Inr prev_track \<Rightarrow> Inr tracks')
                        | CHANY \<Rightarrow> Inr tracks'
                        | OPIN \<Rightarrow> Inr tracks'
                        | _ \<Rightarrow> Inl UnexpectedConnection))
           | IPIN \<Rightarrow>
               (case rr_type (rr_node ! prev_node) of
                  OPIN \<Rightarrow> Inr tracks
                | CHANX \<Rightarrow> Inr tracks
                | CHANY \<Rightarrow> Inr tracks
                | _ \<Rightarrow> Inl UnexpectedConnection)
           | _ \<Rightarrow> Inr tracks))"

fun draw_partial_route_loop ::
  "t_draw_coords \<Rightarrow> e_route_type \<Rightarrow> t_rr_node list \<Rightarrow> track_table \<times> track_table \<Rightarrow>
   nat list \<Rightarrow> error + unit" where
  "draw_partial_route_loop dc route_type rr_node tracks (prev_node # inode # rest) =
     (case draw_partial_route_step dc route_type rr_node tracks prev_node inode of
        Inl e \<Rightarrow> Inl e
      | Inr tracks' \<Rightarrow> draw_partial_route_loop dc route_type rr_node tracks' (inode # rest))"
| "draw_partial_route_loop dc route_type rr_node tracks rr_nodes_to_draw = Inr ()"

text \<open>\<open>draw_partial_route\<close> (lines 1684-1809): whether the call returns.\<close>

definition draw_partial_route ::
  "t_draw_coords \<Rightarrow> e_route_type \<Rightarrow> t_rr_node list \<Rightarrow> nat list \<Rightarrow> error + unit" where
  "draw_partial_route dc route_type rr_node rr_nodes_to_draw =
     draw_partial_route_loop dc route_type rr_node unassigned_tracks rr_nodes_to_draw"

subsection \<open>Trace flattening\<close>

text \<open>\<open>draw_if_net_highlighted\<close> (lines 1845-1860), on the colour of the net.\<close>

definition draw_if_net_highlighted :: "t_globals \<Rightarrow> t_color \<Rightarrow> bool" where
  "draw_if_net_highlighted g net_col =
     (net_col = MAGENTA \<or> net_col = g_drives_it_color g \<or> net_col = g_driven_by_it_color g \<or>
      net_col = g_crit_head_color g \<or> net_col = g_crit_tail_color g)"

text \<open>The recolouring of a node of a drawn net (lines 1651-1660).\<close>

definition color_route_node ::
  "t_globals \<Rightarrow> t_color \<Rightarrow> t_draw_rr_node list \<Rightarrow> nat \<Rightarrow> t_draw_rr_node list" where
  "color_route_node g net_col d inode =
     (if draw_if_net_highlighted g net_col
      then d[inode := (d ! inode)\<lparr>color := net_col, node_highlighted := True\<rparr>]
      else d[inode := (d ! inode)\<lparr>color := DEFAULT_RR_NODE_COLOR\<rparr>])"

text \<open>
  The traceback loop of \<open>drawroute\<close> (lines 1646-1679) for one net. \<open>rest\<close> is what
  follows \<open>tptr\<close>, \<open>acc\<close> is \<open>rr_nodes_to_draw\<close>, \<open>d\<close> is the array \<open>draw_rr_node\<close>;
  \<open>draw\<close> is the call of \<open>draw_partial_route\<close> and \<open>recolor\<close> the recolouring of
  a node, both for this net. Reading \<open>tptr->next->index\<close> at the end of the list
  dereferences \<open>NULL\<close>. The result is the array after the loop and the vectors
  handed to \<open>draw_partial_route\<close>, in call order; the last call, after the loop,
  gets the cleared vector.
\<close>

fun drawroute_loop ::
  "(nat list \<Rightarrow> error + unit) \<Rightarrow> (t_draw_rr_node list \<Rightarrow> nat \<Rightarrow> t_draw_rr_node list) \<Rightarrow>
   t_rr_node list \<Rightarrow> nat list \<Rightarrow> nat list \<Rightarrow> t_draw_rr_node list \<Rightarrow>
   error + (t_draw_rr_node list \<times> nat list list)" where
  "drawroute_loop draw recolor rr_node [] acc d = Inl NullPointer"
| "drawroute_loop draw recolor rr_node [inode] acc d =
     (if rr_type (rr_node ! inode) = SINK
      then (case draw (acc @ [inode]) of
              Inl e \<Rightarrow> Inl e
            | Inr u \<Rightarrow>
                (case draw [] of
                   Inl e \<Rightarrow> Inl e
                 | Inr u' \<Rightarrow> Inr (recolor d inode, [acc @ [inode], []])))
      else Inl NullPointer)"
| "drawroute_loop draw recolor rr_node (inode # next # rest) acc d =
     (if rr_type (rr_node ! inode) = SINK
      then (case draw (acc @ [inode]) of
              Inl e \<Rightarrow> Inl e
            | Inr u \<Rightarrow>
                (case drawroute_loop draw recolor rr_node rest [next] (recolor d inode) of
                   Inl e \<Rightarrow> Inl e
                 | Inr (d', seqs) \<Rightarrow> Inr (d', (acc @ [inode]) # seqs)))
      else drawroute_loop draw recolor rr_node (next # rest) (acc @ [inode]) (recolor d inode))"

text \<open>
  The body of the loop over the nets of \<open>drawroute\<close> (lines 1630-1680) for the net
  \<open>inet\<close> with colour \<open>net_col\<close>: a global net, a net without a trace, and, when only
  highlighted nets are drawn, a black net are skipped.
\<close>

definition drawroute_net ::
  "t_globals \<Rightarrow> e_draw_net_type \<Rightarrow> e_route_type \<Rightarrow> t_color \<Rightarrow> nat \<Rightarrow> t_draw_rr_node list \<Rightarrow>
   error + (t_draw_rr_node list \<times> nat list list)" where
  "drawroute_net g draw_net_type route_type net_col inet d =
     (if g_net_is_global g ! inet then Inr (d, [])
      else (case g_trace_head g ! inet of
              [] \<Rightarrow> Inr (d, [])
            | inode # rest \<Rightarrow>
                if draw_net_type = HIGHLIGHTED \<and> net_col = BLACK then Inr (d, [])
                else drawroute_loop (draw_partial_route (g_draw_coords g) route_type (g_rr_node g))
                       (color_route_node g net_col) (g_rr_node g) rest [inode] d))"

fun drawroute_nets ::
  "t_globals \<Rightarrow> e_draw_net_type \<Rightarrow> e_route_type \<Rightarrow> t_color list \<Rightarrow> nat list \<Rightarrow>
   t_draw_rr_node list \<Rightarrow> error + t_draw_rr_node list" where
  "drawroute_nets g draw_net_type route_type net_cols [] d = Inr d"
| "drawroute_nets g draw_net_type route_type net_cols (inet # inets) d =
     (case drawroute_net g draw_net_type route_type (net_cols ! inet) inet d of
        Inl e \<Rightarrow> Inl e
      | Inr (d', seqs) \<Rightarrow> drawroute_nets g draw_net_type route_type net_cols inets d')"

text \<open>\<open>drawroute\<close> (lines 1611-1681), as the change it makes to the draw state.\<close>

definition drawroute :: "t_globals \<Rightarrow> e_draw_net_type \<Rightarrow> t_draw_state \<Rightarrow> error + t_draw_state" where
  "drawroute g draw_net_type st =
     (case drawroute_nets g draw_net_type (draw_route_type st) (net_color st)
             [0 ..< length (g_trace_head g)] (draw_rr_node st) of
        Inl e \<Rightarrow> Inl e
      | Inr d' \<Rightarrow> Inr (st\<lparr>draw_rr_node := d'\<rparr>))"


subsection \<open>The routing-resource graph\<close>

text \<open>
  \<open>draw_rr_edges\<close> (lines 1004-1181): one edge of \<open>inode\<close>, by the types of its two
  ends, and the loop over the edges with the early return for the views that show
  no edges.
\<close>

definition draw_rr_edge :: "t_draw_coords \<Rightarrow> t_rr_node list \<Rightarrow> nat \<Rightarrow> nat \<Rightarrow> error + unit" where
  "draw_rr_edge dc rr_node inode to_node =
     (case rr_type (rr_node ! inode) of
        OPIN \<Rightarrow>
          (case rr_type (rr_node ! to_node) of
             CHANX \<Rightarrow> Inr ()
           | CHANY \<Rightarrow> Inr ()
           | IPIN \<Rightarrow> Inr ()
           | _ \<Rightarrow> Inl UnexpectedConnection)
      | CHANX \<Rightarrow>
          (case rr_type (rr_node ! to_node) of
             IPIN \<Rightarrow> Inr ()
           | CHANX \<Rightarrow>
               (case draw_chanx_to_chanx_edge dc (rr_node ! inode) (rr_node ! to_node)
                       (ptc_num (rr_node ! to_node)) of
                  Inl e \<Rightarrow> Inl e
                | Inr line \<Rightarrow> Inr ())
           | CHANY \<Rightarrow> Inr ()
           | _ \<Rightarrow> Inl UnexpectedConnection)
      | CHANY \<Rightarrow>
          (case rr_type (rr_node ! to_node) of
             IPIN \<Rightarrow> Inr ()
           | CHANX \<Rightarrow> Inr ()
           | CHANY \<Rightarrow> Inr ()
           | _ \<Rightarrow> Inl UnexpectedConnection)
      | _ \<Rightarrow> Inl UnexpectedType)"

fun draw_rr_edges_loop :: "t_draw_coords \<Rightarrow> t_rr_node list \<Rightarrow> nat \<Rightarrow> nat list \<Rightarrow> error + unit" where
  "draw_rr_edges_loop dc rr_node inode [] = Inr ()"
| "draw_rr_edges_loop dc rr_node inode (to_node # es) =
     (case draw_rr_edge dc rr_node inode to_node of
        Inl e \<Rightarrow> Inl e
      | Inr u \<Rightarrow> draw_rr_edges_loop dc rr_node inode es)"

definition draw_rr_edges ::
  "e_draw_rr_toggle \<Rightarrow> t_draw_coords \<Rightarrow> t_rr_node list \<Rightarrow> nat \<Rightarrow> error + unit" where
  "draw_rr_edges toggle dc rr_node inode =
     (if toggle = DRAW_NODES_RR \<or>
         (toggle = DRAW_NODES_AND_SBOX_RR \<and> rr_type (rr_node ! inode) = OPIN)
      then Inr ()
      else draw_rr_edges_loop dc rr_node inode (edges (rr_node ! inode)))"

text \<open>
  The body of the loop of \<open>draw_rr\<close> (lines 808-858): a node that is not highlighted
  gets the colour of its type, and then the node is drawn, with its edges when it
  is a wire or an output pin. Whether the drawing calls return does not depend on
  the colours, so the loop below asks that first.
\<close>

definition draw_rr_type_color :: "t_rr_node \<Rightarrow> t_draw_rr_node \<Rightarrow> t_draw_rr_node" where
  "draw_rr_type_color node dn =
     (if \<not> node_highlighted dn
      then (case rr_type node of
              CHANX \<Rightarrow> dn\<lparr>color := DEFAULT_RR_NODE_COLOR\<rparr>
            | CHANY \<Rightarrow> dn\<lparr>color := DEFAULT_RR_NODE_COLOR\<rparr>
            | OPIN \<Rightarrow> dn\<lparr>color := PINK\<rparr>
            | IPIN \<Rightarrow> dn\<lparr>color := LIGHTSKYBLUE\<rparr>
            | _ \<Rightarrow> dn)
      else dn)"

definition draw_rr_node_calls ::
  "e_draw_rr_toggle \<Rightarrow> t_draw_coords \<Rightarrow> t_rr_node list \<Rightarrow> nat \<Rightarrow> error + unit" where
  "draw_rr_node_calls toggle dc rr_node inode =
     (case rr_type (rr_node ! inode) of
        SOURCE \<Rightarrow> Inr ()
      | SINK \<Rightarrow> Inr ()
      | CHANX \<Rightarrow> draw_rr_edges toggle dc rr_node inode
      | CHANY \<Rightarrow> draw_rr_edges toggle dc rr_node inode
      | IPIN \<Rightarrow> Inr ()
      | OPIN \<Rightarrow> draw_rr_edges toggle dc rr_node inode)"

fun draw_rr_loop ::
  "e_draw_rr_toggle \<Rightarrow> t_draw_coords \<Rightarrow> t_rr_node list \<Rightarrow> nat list \<Rightarrow> t_draw_rr_node list \<Rightarrow>
   error + t_draw_rr_node list" where
  "draw_rr_loop toggle dc rr_node [] d = Inr d"
| "draw_rr_loop toggle dc rr_node (inode # inodes) d =
     (case draw_rr_node_calls toggle dc rr_node inode of
        Inl e \<Rightarrow> Inl e
      | Inr u \<Rightarrow>
          draw_rr_loop toggle dc rr_node inodes
            (d[inode := draw_rr_type_color (rr_node ! inode) (d ! inode)]))"

text \<open>\<open>draw_rr\<close> (lines 791-861).\<close>

definition draw_rr :: "t_globals \<Rightarrow> t_draw_state \<Rightarrow> error + t_draw_state" where
  "draw_rr g st =
     (if draw_rr_toggle st = DRAW_NO_RR then drawroute g HIGHLIGHTED st
      else (case draw_rr_loop (draw_rr_toggle st) (g_draw_coords g) (g_rr_node g)
                   [0 ..< length (g_rr_node g)] (draw_rr_node st) of
              Inl e \<Rightarrow> Inl e
            | Inr d' \<Rightarrow> drawroute g HIGHLIGHTED (st\<lparr>draw_rr_node := d'\<rparr>)))"

subsection \<open>The screen and the click on a routing resource\<close>

text \<open>
  \<open>draw_crit_path\<close> (lines 2748-2794) returns at once when no critical path is
  shown; otherwise it walks the timing path (or returns when there is no timing
  information), which is the overlay of the global data.
\<close>

definition draw_crit_path :: "t_globals \<Rightarrow> t_draw_state \<Rightarrow> error + t_draw_state" where
  "draw_crit_path g st =
     (if show_crit_path st = DRAW_NO_CRIT_PATH then Inr st else g_timing_path_overlay g st)"

text \<open>
  \<open>redraw_screen\<close> (lines 286-336), which is all that \<open>drawscreen\<close> (lines 233-283) does
  to the draw state.
\<close>

definition redraw_screen :: "t_globals \<Rightarrow> t_draw_state \<Rightarrow> error + t_draw_state" where
  "redraw_screen g st =
     (if pic_on_screen st = PLACEMENT then draw_crit_path g st
      else (case (if show_nets st = DRAW_NETS then drawroute g ALL_NETS st else draw_rr g st) of
              Inl e \<Rightarrow> Inl e
            | Inr st' \<Rightarrow> draw_crit_path g st'))"

definition drawscreen :: "t_globals \<Rightarrow> t_draw_state \<Rightarrow> error + t_draw_state" where
  "drawscreen g st = redraw_screen g st"

text \<open>
  \<open>highlight_rr_nodes\<close> (lines 2014-2080), the whole click: the early return when
  neither the RR graph nor the nets are shown, the hit test, the transition and
  the propagation on a hit, the net highlighting when nets are shown, and the
  redraw that ends every path. Its caller \<open>highlight_blocks\<close> resets all colours
  first (\<open>deselect_all\<close>) unless the control key is held, so two calls in a row on
  the state the first one left are two clicks with that key held.
\<close>

definition highlight_rr_nodes :: "t_globals \<Rightarrow> real \<Rightarrow> real \<Rightarrow> t_draw_state \<Rightarrow> error + t_draw_state" where
  "highlight_rr_nodes g x y st =
     (if draw_rr_toggle st = DRAW_NO_RR \<and> show_nets st = DRAW_NO_NETS then drawscreen g st
      else (case draw_check_rr_node_hit (g_draw_coords g) (g_grid g) (g_side_of g) (g_rr_node g) x y of
              Inl e \<Rightarrow> Inl e
            | Inr hit_node \<Rightarrow>
                if hit_node = OPEN then drawscreen g st
                else if show_nets st \<noteq> DRAW_NO_NETS
                then drawscreen g
                       (highlight_nets (g_trace_head g)
                          (highlight_rr_nodes_hit (g_drives_it_color g) (g_rr_node g) (nat hit_node) st))
                else drawscreen g
                       (highlight_rr_nodes_hit (g_drives_it_color g) (g_rr_node g) (nat hit_node) st)))"

section \<open>Auxiliary notions and example data\<close>

text \<open>
  Index \<open>k\<close> is the first edge of node \<open>n\<close> that leads to \<open>target\<close>; the graph has
  an edge from \<open>prev_node\<close> to \<open>target\<close> (and the node's two edge arrays have one
  length, as \<open>num_edges\<close> promises).
\<close>

definition first_edge_to :: "t_rr_node \<Rightarrow> nat \<Rightarrow> nat \<Rightarrow> bool" where
  "first_edge_to n target k =
     (k < get_num_edges n \<and> edges n ! k = target \<and> (\<forall>j<k. edges n ! j \<noteq> target))"

definition has_edge :: "t_rr_node list \<Rightarrow> nat \<Rightarrow> nat \<Rightarrow> bool" where
  "has_edge rr_node prev_node target =
     (prev_node < length rr_node \<and> target \<in> set (edges (rr_node ! prev_node)) \<and>
      length (switches (rr_node ! prev_node)) = length (edges (rr_node ! prev_node)))"

text \<open>Every adjacent pair of a node sequence is joined by an edge of the graph.\<close>

fun route_connected :: "t_rr_node list \<Rightarrow> nat list \<Rightarrow> bool" where
  "route_connected rr_node (prev_node # target # rest) =
     (has_edge rr_node prev_node target \<and> route_connected rr_node (target # rest))"
| "route_connected rr_node _ = True"

definition ex_node :: "t_rr_type \<Rightarrow> nat list \<Rightarrow> int list \<Rightarrow> t_rr_node" where
  "ex_node t es sw = \<lparr>rr_type = t, xlow = 1, xhigh = 2, ylow = 3, yhigh = 3, ptc_num = 4,
      direction = BI_DIRECTION, edges = es, switches = sw\<rparr>"

definition ex_graph :: "t_rr_node list" where
  "ex_graph = [ex_node OPIN [2, 1, 1] [7, 8, 9], ex_node CHANX [2] [5], ex_node IPIN [] []]"

definition ex_coords :: t_draw_coords where
  "ex_coords = \<lparr>tile_x = (\<lambda>i. 10 * real_of_int i), tile_y = (\<lambda>j. 10 * real_of_int j),
      tile_width = 6, pin_size = 1 / 2\<rparr>"

definition ex_tree :: t_rt_node where
  "ex_tree = Rt_node 0 [Rt_node 1 [Rt_node 3 []], Rt_node 2 [Rt_node 4 [], Rt_node 5 []]]"




text \<open>Some node of a trace has the given colour in the draw state.\<close>

definition trace_has_color :: "t_draw_rr_node list \<Rightarrow> nat list \<Rightarrow> t_color \<Rightarrow> bool" where
  "trace_has_color d trace c = list_ex (\<lambda>i. color (d ! i) = c) trace"

definition ex_net_state :: t_draw_state where
  "ex_net_state =
     \<lparr>draw_rr_toggle = DRAW_NO_RR, show_nets = DRAW_NETS,
      draw_rr_node = [\<lparr>color = MAGENTA, node_highlighted = True\<rparr>,
                      \<lparr>color = WHITE, node_highlighted = False\<rparr>,
                      \<lparr>color = BLACK, node_highlighted = False\<rparr>],
      net_color = [RED, RED, RED],
      pic_on_screen = ROUTING, show_crit_path = DRAW_NO_CRIT_PATH, draw_route_type = DETAILED\<rparr>"

text \<open>
  The value a neighbour of the hit node takes in the propagation, by the colour
  the hit node has then: the fan colour and highlighted when the hit node is
  selected, the default colour and not highlighted when it is deselected.
\<close>

definition propagated :: "t_color \<Rightarrow> t_color \<Rightarrow> t_draw_rr_node \<Rightarrow> t_draw_rr_node" where
  "propagated hit_color fan_color old =
     (if hit_color = MAGENTA then old\<lparr>color := fan_color, node_highlighted := True\<rparr>
      else if hit_color = WHITE then old\<lparr>color := DEFAULT_RR_NODE_COLOR, node_highlighted := False\<rparr>
      else old)"

text \<open>
  A four-node graph 0 \<rightarrow> 1 \<rightarrow> 2 \<rightarrow> 3 with the back edge 2 \<rightarrow> 1, and a draw state in which
  the pins have the colours that \<open>draw_rr\<close> gives to pins that are not highlighted.
  Nets are shown exactly when the RR graph is hidden.
\<close>

definition ex_hl_graph :: "t_rr_node list" where
  "ex_hl_graph =
     [ex_node OPIN [1] [0], ex_node CHANX [2] [0], ex_node CHANX [1, 3] [0, 0], ex_node IPIN [] []]"

definition ex_hl_state :: "e_draw_rr_toggle \<Rightarrow> t_draw_state" where
  "ex_hl_state toggle =
     \<lparr>draw_rr_toggle = toggle,
      show_nets = (if toggle = DRAW_NO_RR then DRAW_NETS else DRAW_NO_NETS),
      draw_rr_node = [\<lparr>color = PINK, node_highlighted = False\<rparr>,
                      \<lparr>color = BLACK, node_highlighted = False\<rparr>,
                      \<lparr>color = BLACK, node_highlighted = False\<rparr>,
                      \<lparr>color = LIGHTSKYBLUE, node_highlighted = False\<rparr>],
      net_color = [],
      pic_on_screen = ROUTING, show_crit_path = DRAW_NO_CRIT_PATH, draw_route_type = DETAILED\<rparr>"

text \<open>A node with an edge to itself listed before its edge to node 1.\<close>

definition ex_self_graph :: "t_rr_node list" where
  "ex_self_graph = [ex_node CHANX [0, 1] [0, 0], ex_node CHANX [] []]"

text \<open>The pin tables are usable for every pin node of the graph.\<close>

definition rr_pins_ok ::
  "(int \<Rightarrow> int \<Rightarrow> t_grid_tile) \<Rightarrow> (int \<Rightarrow> e_side option) \<Rightarrow> t_rr_node list \<Rightarrow> bool" where
  "rr_pins_ok grid side_of rr_node =
     list_all (\<lambda>node. \<not> is_pin node \<or> pin_tables_ok grid side_of node) rr_node"

text \<open>
  A device whose every tile holds one block type with five pins, the pin of
  index 4 placed on the side numbered 2; a graph of a source, an output pin and a
  horizontal wire.
\<close>

definition ex_side_of :: "int \<Rightarrow> e_side option" where
  "ex_side_of i = (if i = 0 then Some TOP else if i = 1 then Some RIGHT
                   else if i = 2 then Some BOTTOM else if i = 3 then Some LEFT else None)"

definition ex_grid :: "int \<Rightarrow> int \<Rightarrow> t_grid_tile" where
  "ex_grid i j =
     \<lparr>tile_type = \<lparr>pinloc = (\<lambda>w h iside ipin. iside = 2 \<and> ipin = 4), num_pins = 5, capacity = 1\<rparr>,
      width_offset = 0, height_offset = 0\<rparr>"

definition ex_hit_graph :: "t_rr_node list" where
  "ex_hit_graph = [ex_node SOURCE [1] [0], ex_node OPIN [2] [0], ex_node CHANX [] []]"

text \<open>
  Bidirectional wires that span the same tiles on different tracks: horizontal
  ones in the channel above row 3, vertical ones in the channel right of column 1.
\<close>

definition ex_chanx :: "int \<Rightarrow> t_rr_node" where
  "ex_chanx track = \<lparr>rr_type = CHANX, xlow = 1, xhigh = 2, ylow = 3, yhigh = 3, ptc_num = track,
      direction = BI_DIRECTION, edges = [], switches = []\<rparr>"

definition ex_chany :: "int \<Rightarrow> t_rr_node" where
  "ex_chany track = \<lparr>rr_type = CHANY, xlow = 1, xhigh = 1, ylow = 2, yhigh = 3, ptc_num = track,
      direction = BI_DIRECTION, edges = [], switches = []\<rparr>"

text \<open>
  No net is drawn by \<open>drawroute(HIGHLIGHTED)\<close>: every net is global, unrouted or
  black. Every node of the RR graph can be drawn with its edges.
\<close>

definition nets_hidden :: "t_globals \<Rightarrow> t_draw_state \<Rightarrow> bool" where
  "nets_hidden g st =
     list_all (\<lambda>inet. g_net_is_global g ! inet \<or> g_trace_head g ! inet = [] \<or>
                       net_color st ! inet = BLACK) [0 ..< length (g_trace_head g)]"

definition rr_graph_draws :: "e_draw_rr_toggle \<Rightarrow> t_draw_coords \<Rightarrow> t_rr_node list \<Rightarrow> bool" where
  "rr_graph_draws toggle dc rr_node =
     list_all (\<lambda>inode. draw_rr_node_calls toggle dc rr_node inode = Inr ()) [0 ..< length rr_node]"

text \<open>
  The colour that a redraw of the RR graph leaves on a node of the given type that is
  black and not highlighted.
\<close>

definition rr_idle_color :: "t_rr_type \<Rightarrow> t_color" where
  "rr_idle_color t = (case t of OPIN \<Rightarrow> PINK | IPIN \<Rightarrow> LIGHTSKYBLUE | _ \<Rightarrow> DEFAULT_RR_NODE_COLOR)"

text \<open>
  A device with all pins of a block on its top side, and a graph laid out on it:
  output pin 4 of the block at (1,3) drives the wire on track 0 of the channel
  above row 3 over columns 1 to 2; that wire and the next one over columns 3 to 4
  drive each other; the second wire drives input pin 1 of the block at (3,3).
  There are no nets and no timing overlay. The routing picture with the RR graph
  shown, for a given array of node colours.
\<close>

definition ex_click_grid :: "int \<Rightarrow> int \<Rightarrow> t_grid_tile" where
  "ex_click_grid i j =
     \<lparr>tile_type = \<lparr>pinloc = (\<lambda>w h iside ipin. iside = 0), num_pins = 5, capacity = 1\<rparr>,
      width_offset = 0, height_offset = 0\<rparr>"

definition ex_rr :: "t_rr_type \<Rightarrow> int \<Rightarrow> int \<Rightarrow> int \<Rightarrow> int \<Rightarrow> nat list \<Rightarrow> t_rr_node" where
  "ex_rr t x1 x2 y p es =
     \<lparr>rr_type = t, xlow = x1, xhigh = x2, ylow = y, yhigh = y, ptc_num = p,
      direction = BI_DIRECTION, edges = es, switches = map (\<lambda>e. 0) es\<rparr>"

definition ex_click_graph :: "t_rr_node list" where
  "ex_click_graph =
     [ex_rr OPIN 1 1 3 4 [1], ex_rr CHANX 1 2 3 0 [2], ex_rr CHANX 3 4 3 0 [1, 3],
      ex_rr IPIN 3 3 3 1 []]"

definition ex_globals :: t_globals where
  "ex_globals =
     \<lparr>g_draw_coords = ex_coords, g_grid = ex_click_grid, g_side_of = ex_side_of,
      g_rr_node = ex_click_graph, g_trace_head = [], g_net_is_global = [],
      g_drives_it_color = RED, g_driven_by_it_color = OTHER_COLOR 0,
      g_crit_head_color = OTHER_COLOR 1, g_crit_tail_color = OTHER_COLOR 2,
      g_timing_path_overlay = (\<lambda>st. Inr st)\<rparr>"

definition ex_rr_view :: "t_draw_rr_node list \<Rightarrow> t_draw_state" where
  "ex_rr_view d =
     \<lparr>draw_rr_toggle = DRAW_ALL_RR, show_nets = DRAW_NO_NETS, draw_rr_node = d, net_color = [],
      pic_on_screen = ROUTING, show_crit_path = DRAW_NO_CRIT_PATH, draw_route_type = DETAILED\<rparr>"

definition ex_nodes :: "(t_color \<times> bool) list \<Rightarrow> t_draw_rr_node list" where
  "ex_nodes cs = map (\<lambda>(c, h). \<lparr>color = c, node_highlighted = h\<rparr>) cs"




section \<open>Properties of the channel bounding box\<close>

text \<open>
  Claim C2. The channel bounding box of a CHANX node has left = tile_x[x_low],
  right = tile_x[x_high] + tile_width and bottom = top = tile_y[y_low] + tile_width
  + 1 + track index; that of a CHANY node has left = right = tile_x[x_low] +
  tile_width + 1 + track index, bottom = tile_y[y_low] and top = tile_y[y_high] +
  tile_width; for a node of any other type it is the all-zero rectangle.
\<close>

theorem chan_bbox_by_type:
  "(rr_type n = CHANX \<longrightarrow>
      left_bb (draw_get_rr_chan_bbox dc n) = tile_x dc (xlow n) \<and>
      right_bb (draw_get_rr_chan_bbox dc n) = tile_x dc (xhigh n) + tile_width dc \<and>
      bottom_bb (draw_get_rr_chan_bbox dc n) =
        tile_y dc (ylow n) + tile_width dc + 1 + real_of_int (ptc_num n) \<and>
      top_bb (draw_get_rr_chan_bbox dc n) = bottom_bb (draw_get_rr_chan_bbox dc n)) \<and>
   (rr_type n = CHANY \<longrightarrow>
      left_bb (draw_get_rr_chan_bbox dc n) =
        tile_x dc (xlow n) + tile_width dc + 1 + real_of_int (ptc_num n) \<and>
      right_bb (draw_get_rr_chan_bbox dc n) = left_bb (draw_get_rr_chan_bbox dc n) \<and>
      bottom_bb (draw_get_rr_chan_bbox dc n) = tile_y dc (ylow n) \<and>
      top_bb (draw_get_rr_chan_bbox dc n) = tile_y dc (yhigh n) + tile_width dc) \<and>
   (rr_type n \<noteq> CHANX \<and> rr_type n \<noteq> CHANY \<longrightarrow>
      draw_get_rr_chan_bbox dc n =
        \<lparr>left_bb = 0, right_bb = 0, bottom_bb = 0, top_bb = 0\<rparr>)"
  by (cases "rr_type n") (simp_all add: draw_get_rr_chan_bbox_def zero_bound_box_def)

theorem chan_bbox_by_type_witness:
  "rr_type (ex_node CHANX [] []) = CHANX \<and>
   left_bb (draw_get_rr_chan_bbox ex_coords (ex_node CHANX [] [])) = 10 \<and>
   right_bb (draw_get_rr_chan_bbox ex_coords (ex_node CHANX [] [])) = 26 \<and>
   bottom_bb (draw_get_rr_chan_bbox ex_coords (ex_node CHANX [] [])) = 41 \<and>
   top_bb (draw_get_rr_chan_bbox ex_coords (ex_node CHANX [] [])) = 41 \<and>
   rr_type (ex_node CHANY [] []) = CHANY \<and>
   left_bb (draw_get_rr_chan_bbox ex_coords (ex_node CHANY [] [])) = 21 \<and>
   right_bb (draw_get_rr_chan_bbox ex_coords (ex_node CHANY [] [])) = 21 \<and>
   bottom_bb (draw_get_rr_chan_bbox ex_coords (ex_node CHANY [] [])) = 30 \<and>
   top_bb (draw_get_rr_chan_bbox ex_coords (ex_node CHANY [] [])) = 36 \<and>
   rr_type (ex_node SINK [] []) \<noteq> CHANX \<and> rr_type (ex_node SINK [] []) \<noteq> CHANY \<and>
   draw_get_rr_chan_bbox ex_coords (ex_node SINK [] []) =
     \<lparr>left_bb = 0, right_bb = 0, bottom_bb = 0, top_bb = 0\<rparr>"
  using chan_bbox_by_type[of "ex_node CHANX [] []" ex_coords]
        chan_bbox_by_type[of "ex_node CHANY [] []" ex_coords]
        chan_bbox_by_type[of "ex_node SINK [] []" ex_coords]
  by (simp add: ex_node_def ex_coords_def)

section \<open>Properties of the switch lookup\<close>

lemma find_switch_loop_first:
  "target \<in> set es \<Longrightarrow> i + length es \<le> length sw \<Longrightarrow>
   \<exists>k<length es. es ! k = target \<and> (\<forall>j<k. es ! j \<noteq> target) \<and>
      find_switch_loop es sw i target = Inr (sw ! (i + k))"
proof (induction es arbitrary: i)
  case Nil
  then show ?case by simp
next
  case (Cons e es)
  show ?case
  proof (cases "e = target")
    case True
    with Cons.prems show ?thesis by (intro exI[of _ 0]) simp
  next
    case False
    with Cons.prems have "target \<in> set es" "Suc i + length es \<le> length sw" by auto
    from Cons.IH[OF this] obtain k where k: "k < length es" "es ! k = target"
      "\<forall>j<k. es ! j \<noteq> target" "find_switch_loop es sw (Suc i) target = Inr (sw ! (Suc i + k))"
      by blast
    have "\<forall>j<Suc k. (e # es) ! j \<noteq> target"
      using False k(3) by (auto simp: less_Suc_eq_0_disj)
    with k False show ?thesis by (intro exI[of _ "Suc k"]) simp
  qed
qed

lemma find_switch_has_edge:
  assumes "has_edge rr_node prev_node target"
  shows "\<exists>k. first_edge_to (rr_node ! prev_node) target k \<and>
             find_switch rr_node prev_node target = Inr (switches (rr_node ! prev_node) ! k)"
  using assms
    find_switch_loop_first[of target "edges (rr_node ! prev_node)" 0 "switches (rr_node ! prev_node)"]
  by (auto simp: has_edge_def find_switch_def first_edge_to_def get_num_edges_def)

lemma draw_partial_route_switches_length:
  "length (draw_partial_route_switches rr_node s) = length s - 1"
  by (induction rr_node s rule: draw_partial_route_switches.induct) simp_all

lemma draw_partial_route_switches_nth:
  "Suc i < length s \<Longrightarrow>
   draw_partial_route_switches rr_node s ! i = find_switch rr_node (s ! i) (s ! Suc i)"
proof (induction rr_node s arbitrary: i rule: draw_partial_route_switches.induct)
  case (1 rr_node prev_node target rest)
  then show ?case by (cases i) simp_all
qed simp_all

text \<open>
  Claim C10. When the RR graph has an edge from \<open>prev\<close> to \<open>curr\<close> for every adjacent
  pair of the sequence that \<open>draw_partial_route\<close> processes, each call of
  \<open>find_switch\<close> made there returns the switch stored at the first edge of \<open>prev\<close>
  whose target is \<open>curr\<close>; no call ends in the failing assertion.
\<close>

lemma route_connected_nth:
  "route_connected rr_node s \<Longrightarrow> Suc i < length s \<Longrightarrow> has_edge rr_node (s ! i) (s ! Suc i)"
proof (induction rr_node s arbitrary: i rule: route_connected.induct)
  case (1 rr_node prev_node target rest)
  then show ?case by (cases i) simp_all
qed simp_all

theorem find_switch_on_route:
  assumes "route_connected rr_node s"
  shows "length (draw_partial_route_switches rr_node s) = length s - 1 \<and>
         (\<forall>i. Suc i < length s \<longrightarrow>
            (\<exists>k. first_edge_to (rr_node ! (s ! i)) (s ! Suc i) k \<and>
                 draw_partial_route_switches rr_node s ! i = Inr (switches (rr_node ! (s ! i)) ! k) \<and>
                 find_switch rr_node (s ! i) (s ! Suc i) = Inr (switches (rr_node ! (s ! i)) ! k)))"
proof (intro conjI allI impI)
  show "length (draw_partial_route_switches rr_node s) = length s - 1"
    by (rule draw_partial_route_switches_length)
next
  fix i assume i: "Suc i < length s"
  with assms have "has_edge rr_node (s ! i) (s ! Suc i)" by (rule route_connected_nth)
  from find_switch_has_edge[OF this] obtain k where
    k: "first_edge_to (rr_node ! (s ! i)) (s ! Suc i) k"
       "find_switch rr_node (s ! i) (s ! Suc i) = Inr (switches (rr_node ! (s ! i)) ! k)"
    by blast
  with draw_partial_route_switches_nth[OF i, of rr_node]
  show "\<exists>k. first_edge_to (rr_node ! (s ! i)) (s ! Suc i) k \<and>
          draw_partial_route_switches rr_node s ! i = Inr (switches (rr_node ! (s ! i)) ! k) \<and>
          find_switch rr_node (s ! i) (s ! Suc i) = Inr (switches (rr_node ! (s ! i)) ! k)"
    by auto
qed

theorem find_switch_on_route_witness:
  "route_connected ex_graph [0, 1, 2] \<and>
   length (draw_partial_route_switches ex_graph [0, 1, 2]) = 2 \<and>
   (\<exists>k. first_edge_to (ex_graph ! 0) 1 k \<and>
        find_switch ex_graph 0 1 = Inr (switches (ex_graph ! 0) ! k)) \<and>
   find_switch ex_graph 0 1 = Inr 8"
proof -
  have h: "route_connected ex_graph [0, 1, 2]"
    by (simp add: has_edge_def ex_graph_def ex_node_def)
  have v: "find_switch ex_graph 0 1 = Inr 8"
    by (simp add: find_switch_def ex_graph_def ex_node_def)
  from find_switch_on_route[OF h] have
    "length (draw_partial_route_switches ex_graph [0, 1, 2]) = 2"
    "\<exists>k. first_edge_to (ex_graph ! 0) 1 k \<and>
        find_switch ex_graph 0 1 = Inr (switches (ex_graph ! 0) ! k)"
    by (simp, fastforce)
  with h v show ?thesis by blast
qed

section \<open>Properties of the path finder\<close>

lemma rt_path_nonempty: "rt_path t p \<Longrightarrow> p \<noteq> []"
  by (cases t) auto

lemma rt_path_hd: "rt_path t p \<Longrightarrow> hd p = rt_inode t"
  by (induction t p rule: rt_path.induct) auto

lemma rt_path_child:
  "c \<in> set cs \<Longrightarrow> rt_path c p \<Longrightarrow> rt_path (Rt_node i cs) (i # p)"
  by (cases p) auto

text \<open>
  What one call of the search returns, for any vector passed in: it answers whether
  the sink is in the subtree; on failure the vector is unchanged; on success the
  vector has grown by the nodes from the sink back up to the root of the subtree.
\<close>

lemma recurr_sound:
  "(\<And>b p. trace_routed_connection_rr_nodes_recurr t sink acc = (b, p) \<Longrightarrow>
      (b \<longleftrightarrow> sink \<in> rt_inodes t) \<and>
      (if b then \<exists>q. p = acc @ q \<and> rt_path t (rev q) \<and> hd q = sink else p = acc))"
  "(\<And>b p. recurr_child_list i cs sink acc = (b, p) \<Longrightarrow>
      (b \<longleftrightarrow> (\<exists>c \<in> set cs. sink \<in> rt_inodes c)) \<and>
      (if b then \<exists>q c. c \<in> set cs \<and> p = acc @ q @ [i] \<and> rt_path c (rev q) \<and> hd q = sink
       else p = acc))"
proof (induction t sink acc and i cs sink acc
       rule: trace_routed_connection_rr_nodes_recurr_recurr_child_list.induct)
  case (1 i children sink_rr_node rr_nodes_on_path)
  show ?case
  proof (cases "i = sink_rr_node")
    case True
    with 1(2) show ?thesis by auto
  next
    case False
    with 1(2) have r: "recurr_child_list i children sink_rr_node rr_nodes_on_path = (b, p)"
      by simp
    note ih = 1(1)[OF False r]
    show ?thesis
    proof (cases b)
      case True
      with ih obtain q c where qc: "c \<in> set children" "p = rr_nodes_on_path @ q @ [i]"
        "rt_path c (rev q)" "hd q = sink_rr_node" by auto
      from qc(3) have qne: "q \<noteq> []" using rt_path_nonempty by fastforce
      have "rt_path (Rt_node i children) (rev (q @ [i]))"
        using rt_path_child[OF qc(1) qc(3)] by simp
      moreover have "hd (q @ [i]) = sink_rr_node" using qne qc(4) by simp
      ultimately have "\<exists>q'. p = rr_nodes_on_path @ q' \<and> rt_path (Rt_node i children) (rev q') \<and>
          hd q' = sink_rr_node"
        using qc(2) by blast
      with True ih False show ?thesis by auto
    next
      case False
      with ih \<open>i \<noteq> sink_rr_node\<close> show ?thesis by auto
    qed
  qed
next
  case (2 i sink_rr_node rr_nodes_on_path)
  then show ?case by auto
next
  case (3 i child_rt_node edge sink_rr_node rr_nodes_on_path)
  obtain b1 p1 where c1:
    "trace_routed_connection_rr_nodes_recurr child_rt_node sink_rr_node rr_nodes_on_path = (b1, p1)"
    by (cases "trace_routed_connection_rr_nodes_recurr child_rt_node sink_rr_node rr_nodes_on_path")
  note ih1 = 3(1)[OF c1]
  show ?case
  proof (cases b1)
    case True
    with c1 3(3) have bp: "b = True" "p = p1 @ [i]" by auto
    from True ih1 obtain q where q: "p1 = rr_nodes_on_path @ q" "rt_path child_rt_node (rev q)"
      "hd q = sink_rr_node" "sink_rr_node \<in> rt_inodes child_rt_node" by auto
    then have "\<exists>q c. c \<in> set (child_rt_node # edge) \<and> p = rr_nodes_on_path @ q @ [i] \<and>
        rt_path c (rev q) \<and> hd q = sink_rr_node"
      using bp by auto
    with bp q(4) show ?thesis by auto
  next
    case False
    with ih1 have p1: "p1 = rr_nodes_on_path" "sink_rr_node \<notin> rt_inodes child_rt_node" by auto
    from c1 have c1': "(b1, p1) =
        trace_routed_connection_rr_nodes_recurr child_rt_node sink_rr_node rr_nodes_on_path"
      by simp
    from 3(3) c1 False have r: "recurr_child_list i edge sink_rr_node p1 = (b, p)" by simp
    have ih2: "(b \<longleftrightarrow> (\<exists>c \<in> set edge. sink_rr_node \<in> rt_inodes c)) \<and>
      (if b then \<exists>q c. c \<in> set edge \<and> p = p1 @ q @ [i] \<and> rt_path c (rev q) \<and> hd q = sink_rr_node
       else p = p1)"
      using 3(2)[OF c1' _ r] False by simp
    show ?thesis
    proof (cases b)
      case True
      with ih2 obtain q c where "c \<in> set edge" "p = p1 @ q @ [i]" "rt_path c (rev q)"
        "hd q = sink_rr_node"
        by auto
      then have "\<exists>q c. c \<in> set (child_rt_node # edge) \<and> p = rr_nodes_on_path @ q @ [i] \<and>
        rt_path c (rev q) \<and> hd q = sink_rr_node" using p1 by auto
      with True ih2 show ?thesis by auto
    next
      case False
      with ih2 p1 show ?thesis by auto
    qed
  qed
qed

text \<open>
  Claim C7. For a route tree and a target sink node, the depth-first path finder
  returns, when the sink is in the tree, the node list from the root (the source) to
  the sink: its first element is the root's node, its last element is the sink and
  every consecutive pair is a parent-to-child edge of the tree. When the sink is not
  in the tree the search returns false and the path is empty.
\<close>

theorem find_path_correct:
  "(sink \<in> rt_inodes rt_root \<longrightarrow>
      fst (trace_routed_connection_rr_nodes_recurr rt_root sink []) \<and>
      rt_path rt_root (trace_routed_connection_rr_nodes rt_root sink) \<and>
      hd (trace_routed_connection_rr_nodes rt_root sink) = rt_inode rt_root \<and>
      last (trace_routed_connection_rr_nodes rt_root sink) = sink) \<and>
   (sink \<notin> rt_inodes rt_root \<longrightarrow>
      \<not> fst (trace_routed_connection_rr_nodes_recurr rt_root sink []) \<and>
      trace_routed_connection_rr_nodes rt_root sink = [])"
proof -
  obtain b p where bp: "trace_routed_connection_rr_nodes_recurr rt_root sink [] = (b, p)"
    by (cases "trace_routed_connection_rr_nodes_recurr rt_root sink []")
  note s = recurr_sound(1)[OF bp]
  show ?thesis
  proof (cases b)
    case True
    with s obtain q where q: "p = q" "rt_path rt_root (rev q)" "hd q = sink" by auto
    from q(2) have "q \<noteq> []" using rt_path_nonempty by fastforce
    then have "last (rev q) = sink" using q(3) by (simp add: last_rev)
    moreover have "hd (rev q) = rt_inode rt_root" using q(2) by (rule rt_path_hd)
    ultimately show ?thesis
      using True s q bp by (simp add: trace_routed_connection_rr_nodes_def)
  next
    case False
    with s bp show ?thesis by (simp add: trace_routed_connection_rr_nodes_def)
  qed
qed

theorem find_path_correct_witness:
  "5 \<in> rt_inodes ex_tree \<and>
   trace_routed_connection_rr_nodes ex_tree 5 = [0, 2, 5] \<and>
   rt_path ex_tree (trace_routed_connection_rr_nodes ex_tree 5) \<and>
   last (trace_routed_connection_rr_nodes ex_tree 5) = 5 \<and>
   9 \<notin> rt_inodes ex_tree \<and>
   trace_routed_connection_rr_nodes ex_tree 9 = []"
proof -
  have a: "5 \<in> rt_inodes ex_tree" "9 \<notin> rt_inodes ex_tree"
    by (simp_all add: ex_tree_def)
  have v: "trace_routed_connection_rr_nodes ex_tree 5 = [0, 2, 5]"
    by (simp add: ex_tree_def trace_routed_connection_rr_nodes_def)
  from find_path_correct[of 5 ex_tree] a(1) have
    "rt_path ex_tree (trace_routed_connection_rr_nodes ex_tree 5)"
    "last (trace_routed_connection_rr_nodes ex_tree 5) = 5" by simp_all
  moreover from find_path_correct[of 9 ex_tree] a(2) have
    "trace_routed_connection_rr_nodes ex_tree 9 = []" by simp
  ultimately show ?thesis using a v by simp
qed

section \<open>Properties of the net highlighting\<close>

lemma highlight_net_scan_result:
  "highlight_net_scan d trace c =
     (if trace_has_color d trace WHITE then BLACK
      else if trace_has_color d trace MAGENTA then MAGENTA
      else c)"
  by (induction trace arbitrary: c) (auto simp: trace_has_color_def)

lemma fold_net_update_length:
  "length (fold (\<lambda>inet nc. nc[inet := f inet (nc ! inet)]) ns nc0) = length nc0"
  by (induction ns arbitrary: nc0) simp_all

lemma fold_net_update_other:
  "j \<notin> set ns \<Longrightarrow> fold (\<lambda>inet nc. nc[inet := f inet (nc ! inet)]) ns nc0 ! j = nc0 ! j"
  by (induction ns arbitrary: nc0) simp_all

lemma fold_net_update_upt:
  "j < n \<Longrightarrow> j < length nc0 \<Longrightarrow>
   fold (\<lambda>inet nc. nc[inet := f inet (nc ! inet)]) [0 ..< n] nc0 ! j = f j (nc0 ! j)"
proof (induction n)
  case 0
  then show ?case by simp
next
  case (Suc n)
  show ?case
  proof (cases "j = n")
    case True
    with Suc.prems show ?thesis
      by (simp add: fold_net_update_length fold_net_update_other)
  next
    case False
    with Suc show ?thesis by (simp add: fold_net_update_length)
  qed
qed

text \<open>
  Claim C9 (amended). Net-level highlighting scans each net's trace in order. If any
  node of the trace has the DESELECTED-TRANSIENT colour (white), the net ends with
  the default net colour (black), wherever that node stands in the scan; otherwise,
  if any node has the SELECTED colour (magenta), the net ends with that colour;
  otherwise the net colour is unchanged. Node colours are not touched.
\<close>

theorem highlight_nets_final_color:
  assumes "inet < length trace_head" "inet < length (net_color st)"
  shows "net_color (highlight_nets trace_head st) ! inet =
           (if trace_has_color (draw_rr_node st) (trace_head ! inet) WHITE then BLACK
            else if trace_has_color (draw_rr_node st) (trace_head ! inet) MAGENTA then MAGENTA
            else net_color st ! inet) \<and>
         draw_rr_node (highlight_nets trace_head st) = draw_rr_node st"
proof -
  have "net_color (highlight_nets trace_head st) ! inet =
          highlight_net_scan (draw_rr_node st) (trace_head ! inet) (net_color st ! inet)"
    using assms
      fold_net_update_upt[of inet "length trace_head" "net_color st"
        "\<lambda>i c. highlight_net_scan (draw_rr_node st) (trace_head ! i) c"]
    by (simp add: highlight_nets_def)
  then show ?thesis
    by (simp add: highlight_net_scan_result highlight_nets_def)
qed

theorem highlight_nets_final_color_witness:
  "(0::nat) < length [[0, 2], [2], [2, 1, 0]] \<and> (0::nat) < length (net_color ex_net_state) \<and>
   trace_has_color (draw_rr_node ex_net_state) [0, 2] MAGENTA \<and>
   net_color (highlight_nets [[0, 2], [2], [2, 1, 0]] ex_net_state) ! 0 = MAGENTA \<and>
   net_color (highlight_nets [[0, 2], [2], [2, 1, 0]] ex_net_state) ! 1 = RED \<and>
   net_color (highlight_nets [[0, 2], [2], [2, 1, 0]] ex_net_state) ! 2 = BLACK"
  using highlight_nets_final_color[of 0 "[[0, 2], [2], [2, 1, 0]]" ex_net_state]
        highlight_nets_final_color[of 1 "[[0, 2], [2], [2, 1, 0]]" ex_net_state]
        highlight_nets_final_color[of 2 "[[0, 2], [2], [2, 1, 0]]" ex_net_state]
  by (simp add: ex_net_state_def trace_has_color_def)

text \<open>
  On a trace whose first node is selected and whose second node is deselected, the
  first match in scan order is the selected node, yet the net ends black.
\<close>

theorem highlight_nets_first_match_counterexample:
  "color (draw_rr_node ex_net_state ! hd [0, 1]) = MAGENTA \<and>
   color (draw_rr_node ex_net_state ! 1) = WHITE \<and>
   net_color (highlight_nets [[0, 1]] ex_net_state) ! 0 = BLACK"
  by (simp add: ex_net_state_def highlight_nets_def)

section \<open>Properties of the highlight engine\<close>

lemma propagated_twice: "propagated c f (propagated c f' a) = propagated c f a"
  by (simp add: propagated_def)

lemma fold_point_update_length:
  "length (fold (\<lambda>m d. d[m := g (d ! m)]) ms d) = length d"
  by (induction ms arbitrary: d) simp_all

lemma fold_point_update_nth:
  assumes "x < length d" "\<And>a. g (g a) = g a"
  shows "fold (\<lambda>m d. d[m := g (d ! m)]) ms d ! x = (if x \<in> set ms then g (d ! x) else d ! x)"
  using assms(1)
proof (induction ms arbitrary: d)
  case Nil
  then show ?case by simp
next
  case (Cons m ms)
  then have "x < length (d[m := g (d ! m)])" by simp
  from Cons.IH[OF this] Cons.prems show ?case
    by (cases "x = m") (simp_all add: assms(2))
qed

lemma highlight_fanout_edge_propagated:
  "highlight_fanout_edge drives_it n m d = d[m := propagated (color (d ! n)) drives_it (d ! m)]"
  by (simp add: highlight_fanout_edge_def propagated_def set_rr_node_def)

lemma fanout_fold_propagated:
  "n \<notin> set es \<Longrightarrow> color (d ! n) = c0 \<Longrightarrow>
   fold (highlight_fanout_edge drives_it n) es d =
   fold (\<lambda>m d. d[m := propagated c0 drives_it (d ! m)]) es d"
proof (induction es arbitrary: d)
  case Nil
  then show ?case by simp
next
  case (Cons m es)
  then have "m \<noteq> n" "n \<notin> set es" by auto
  then have "color (d[m := propagated c0 drives_it (d ! m)] ! n) = c0"
    using Cons.prems(2) by simp
  from Cons.IH[OF \<open>n \<notin> set es\<close> this] Cons.prems(2) show ?case
    by (simp add: highlight_fanout_edge_propagated)
qed

lemma fanin_edges_fold:
  "i \<noteq> n \<or> n \<notin> set es \<Longrightarrow> color (d ! n) = c0 \<Longrightarrow>
   fold (highlight_fanin_edge n i) es d =
     (if n \<in> set es then d[i := propagated c0 BLUE (d ! i)] else d)"
proof (induction es arbitrary: d)
  case Nil
  then show ?case by simp
next
  case (Cons e es)
  show ?case
  proof (cases "e = n")
    case True
    with Cons.prems have ne: "i \<noteq> n" by auto
    let ?d' = "d[i := propagated c0 BLUE (d ! i)]"
    have step: "highlight_fanin_edge n i e d = ?d'"
      using True Cons.prems(2)
      by (simp add: highlight_fanin_edge_def propagated_def set_rr_node_def)
    have c: "color (?d' ! n) = c0" using ne Cons.prems(2) by simp
    have idem: "?d'[i := propagated c0 BLUE (?d' ! i)] = ?d'"
      by (cases "i < length d") (simp_all add: propagated_twice list_update_beyond)
    from Cons.IH[of ?d'] ne c have
      "fold (highlight_fanin_edge n i) es ?d' =
         (if n \<in> set es then ?d'[i := propagated c0 BLUE (?d' ! i)] else ?d')"
      by simp
    with idem step True show ?thesis by simp
  next
    case False
    then have "highlight_fanin_edge n i e d = d" by (simp add: highlight_fanin_edge_def)
    with Cons False show ?thesis by auto
  qed
qed

lemma fanin_fold_propagated:
  "\<forall>i \<in> set ns. i \<noteq> n \<or> n \<notin> set (edges (rr_node ! i)) \<Longrightarrow> color (d ! n) = c0 \<Longrightarrow>
   fold (highlight_fanin_node rr_node n) ns d =
   fold (\<lambda>m d. d[m := propagated c0 BLUE (d ! m)])
     (filter (\<lambda>i. n \<in> set (edges (rr_node ! i))) ns) d"
proof (induction ns arbitrary: d)
  case Nil
  then show ?case by simp
next
  case (Cons i ns)
  from Cons.prems(1) have i: "i \<noteq> n \<or> n \<notin> set (edges (rr_node ! i))" by auto
  have step: "highlight_fanin_node rr_node n i d =
      (if n \<in> set (edges (rr_node ! i)) then d[i := propagated c0 BLUE (d ! i)] else d)"
    unfolding highlight_fanin_node_def using i Cons.prems(2) by (rule fanin_edges_fold)
  have c: "color (highlight_fanin_node rr_node n i d ! n) = c0"
  proof (cases "n \<in> set (edges (rr_node ! i))")
    case True
    with i have "i \<noteq> n" by auto
    with step True Cons.prems(2) show ?thesis by simp
  next
    case False
    with step Cons.prems(2) show ?thesis by simp
  qed
  from Cons.prems(1) have "\<forall>i \<in> set ns. i \<noteq> n \<or> n \<notin> set (edges (rr_node ! i))" by simp
  from Cons.IH[OF this c] step show ?case by simp
qed

lemma fan_in_fan_out_result:
  assumes n: "n \<notin> set (edges (rr_node ! n))" and nd: "n < length d" and x: "x < length d"
  shows "draw_highlight_fan_in_fan_out drives_it rr_node n d ! x =
           (if is_fanin rr_node n x then propagated (color (d ! n)) BLUE (d ! x)
            else if is_fanout rr_node n x then propagated (color (d ! n)) drives_it (d ! x)
            else d ! x)"
    and "length (draw_highlight_fan_in_fan_out drives_it rr_node n d) = length d"
proof -
  let ?c = "color (d ! n)"
  let ?out = "fold (\<lambda>m d. d[m := propagated ?c drives_it (d ! m)]) (edges (rr_node ! n)) d"
  have out: "fold (highlight_fanout_edge drives_it n) (edges (rr_node ! n)) d = ?out"
    using n by (rule fanout_fold_propagated) simp
  have lout: "length ?out = length d" by (rule fold_point_update_length)
  have out_nth: "\<And>y. y < length d \<Longrightarrow>
      ?out ! y = (if y \<in> set (edges (rr_node ! n)) then propagated ?c drives_it (d ! y) else d ! y)"
    by (rule fold_point_update_nth) (simp_all add: propagated_twice)
  have out_n: "color (?out ! n) = ?c"
    using out_nth[OF nd] n by simp
  have noself: "\<forall>i \<in> set [0 ..< length rr_node]. i \<noteq> n \<or> n \<notin> set (edges (rr_node ! i))"
    using n by auto
  have fin: "draw_highlight_fan_in_fan_out drives_it rr_node n d =
      fold (\<lambda>m d. d[m := propagated ?c BLUE (d ! m)])
        (filter (\<lambda>i. n \<in> set (edges (rr_node ! i))) [0 ..< length rr_node]) ?out"
    unfolding draw_highlight_fan_in_fan_out_def out
    using noself out_n by (rule fanin_fold_propagated)
  show "length (draw_highlight_fan_in_fan_out drives_it rr_node n d) = length d"
    unfolding fin by (simp add: fold_point_update_length)
  have "draw_highlight_fan_in_fan_out drives_it rr_node n d ! x =
      (if x \<in> set (filter (\<lambda>i. n \<in> set (edges (rr_node ! i))) [0 ..< length rr_node])
       then propagated ?c BLUE (?out ! x) else ?out ! x)"
    unfolding fin using x lout
    by (intro fold_point_update_nth) (simp_all add: propagated_twice)
  then show "draw_highlight_fan_in_fan_out drives_it rr_node n d ! x =
           (if is_fanin rr_node n x then propagated (color (d ! n)) BLUE (d ! x)
            else if is_fanout rr_node n x then propagated (color (d ! n)) drives_it (d ! x)
            else d ! x)"
    using out_nth[OF x] by (simp add: is_fanin_def is_fanout_def propagated_twice)
qed

lemma toggle_hit_node_nth:
  "n < length d \<Longrightarrow>
   toggle_hit_node n d ! x =
     (if x = n then (if color (d ! n) \<noteq> MAGENTA then \<lparr>color = MAGENTA, node_highlighted = True\<rparr>
                     else \<lparr>color = WHITE, node_highlighted = False\<rparr>)
      else d ! x)"
  by (simp add: toggle_hit_node_def set_rr_node_def)

lemma toggle_hit_node_length: "length (toggle_hit_node n d) = length d"
  by (simp add: toggle_hit_node_def set_rr_node_def)

text \<open>
  Claim C3. The transition of a node N hit by a click: when its colour is not the
  SELECTED colour (magenta) it becomes SELECTED and highlighted; otherwise it gets
  the DESELECTED-TRANSIENT colour (white) and is no longer highlighted. No other
  entry of the array changes in this step.
\<close>

theorem toggle_hit_node_transition:
  assumes "n < length d"
  shows "(color (d ! n) \<noteq> MAGENTA \<longrightarrow>
            color (toggle_hit_node n d ! n) = MAGENTA \<and> node_highlighted (toggle_hit_node n d ! n)) \<and>
         (color (d ! n) = MAGENTA \<longrightarrow>
            color (toggle_hit_node n d ! n) = WHITE \<and> \<not> node_highlighted (toggle_hit_node n d ! n)) \<and>
         (\<forall>m. m \<noteq> n \<longrightarrow> toggle_hit_node n d ! m = d ! m) \<and>
         length (toggle_hit_node n d) = length d"
  using assms by (simp add: toggle_hit_node_nth toggle_hit_node_length)

theorem toggle_hit_node_transition_witness:
  "(0::nat) < length (draw_rr_node (ex_hl_state DRAW_ALL_RR)) \<and>
   color (draw_rr_node (ex_hl_state DRAW_ALL_RR) ! 0) \<noteq> MAGENTA \<and>
   color (toggle_hit_node 0 (draw_rr_node (ex_hl_state DRAW_ALL_RR)) ! 0) = MAGENTA \<and>
   node_highlighted (toggle_hit_node 0 (draw_rr_node (ex_hl_state DRAW_ALL_RR)) ! 0) \<and>
   color (toggle_hit_node 0 (toggle_hit_node 0 (draw_rr_node (ex_hl_state DRAW_ALL_RR))) ! 0) = WHITE \<and>
   \<not> node_highlighted (toggle_hit_node 0 (toggle_hit_node 0 (draw_rr_node (ex_hl_state DRAW_ALL_RR))) ! 0)"
proof -
  let ?d = "draw_rr_node (ex_hl_state DRAW_ALL_RR)"
  have a: "(0::nat) < length ?d" "color (?d ! 0) \<noteq> MAGENTA"
    by (simp_all add: ex_hl_state_def)
  from toggle_hit_node_transition[OF a(1)] a(2) have
    b: "color (toggle_hit_node 0 ?d ! 0) = MAGENTA" "node_highlighted (toggle_hit_node 0 ?d ! 0)"
       "length (toggle_hit_node 0 ?d) = length ?d"
    by simp_all
  from b(3) a(1) have "0 < length (toggle_hit_node 0 ?d)" by simp
  from toggle_hit_node_transition[OF this] b(1) have
    "color (toggle_hit_node 0 (toggle_hit_node 0 ?d) ! 0) = WHITE"
    "\<not> node_highlighted (toggle_hit_node 0 (toggle_hit_node 0 ?d) ! 0)"
    by simp_all
  with a b show ?thesis by simp
qed

lemma highlight_rr_nodes_hit_result:
  assumes gate: "draw_rr_toggle st \<noteq> DRAW_NO_RR"
    and n: "n < length rr_node" and len: "length (draw_rr_node st) = length rr_node"
    and noself: "\<not> is_fanout rr_node n n" and x: "x < length rr_node"
  shows "draw_rr_node (highlight_rr_nodes_hit drives_it rr_node n st) ! x =
           (if x = n then toggle_hit_node n (draw_rr_node st) ! n
            else if is_fanin rr_node n x
            then propagated (color (toggle_hit_node n (draw_rr_node st) ! n)) BLUE (draw_rr_node st ! x)
            else if is_fanout rr_node n x
            then propagated (color (toggle_hit_node n (draw_rr_node st) ! n)) drives_it (draw_rr_node st ! x)
            else draw_rr_node st ! x)"
    and "length (draw_rr_node (highlight_rr_nodes_hit drives_it rr_node n st)) = length rr_node"
    and "draw_rr_toggle (highlight_rr_nodes_hit drives_it rr_node n st) = draw_rr_toggle st"
proof -
  let ?d1 = "toggle_hit_node n (draw_rr_node st)"
  have l1: "length ?d1 = length rr_node" using len by (simp add: toggle_hit_node_length)
  have ns: "n \<notin> set (edges (rr_node ! n))" using noself by (simp add: is_fanout_def)
  have nf: "\<not> is_fanin rr_node n n" using ns by (simp add: is_fanin_def)
  have r: "draw_rr_node (highlight_rr_nodes_hit drives_it rr_node n st) =
      draw_highlight_fan_in_fan_out drives_it rr_node n ?d1"
    using gate by (simp add: highlight_rr_nodes_hit_def)
  have d1x: "x \<noteq> n \<Longrightarrow> ?d1 ! x = draw_rr_node st ! x"
    using n len by (simp add: toggle_hit_node_nth)
  show "draw_rr_node (highlight_rr_nodes_hit drives_it rr_node n st) ! x =
           (if x = n then ?d1 ! n
            else if is_fanin rr_node n x
            then propagated (color (?d1 ! n)) BLUE (draw_rr_node st ! x)
            else if is_fanout rr_node n x
            then propagated (color (?d1 ! n)) drives_it (draw_rr_node st ! x)
            else draw_rr_node st ! x)"
    unfolding r using fan_in_fan_out_result(1)[OF ns, of ?d1 x drives_it] n x l1 nf noself d1x
    by auto
  show "length (draw_rr_node (highlight_rr_nodes_hit drives_it rr_node n st)) = length rr_node"
    unfolding r using fan_in_fan_out_result(2)[OF ns, of ?d1 n drives_it] n l1 by simp
  show "draw_rr_toggle (highlight_rr_nodes_hit drives_it rr_node n st) = draw_rr_toggle st"
    by (simp add: highlight_rr_nodes_hit_def)
qed

text \<open>
  Claim C4 (amended). The propagation runs after the transition of N only while the
  RR graph is shown (\<open>draw_rr_toggle\<close> is not \<open>DRAW_NO_RR\<close>); otherwise the state is
  the one the transition left. When it runs, and N has no edge to itself, it is one
  hop deep: N keeps what the transition gave it (selected or deselected); every
  other node with an edge to N gets the fan-in colour (blue) and is highlighted
  when N became selected, and the default colour and not highlighted when N became
  deselected; every other node that N has an edge to, and that has no edge to N,
  gets the fan-out colour (or the same reset); all remaining nodes are unchanged.
\<close>

theorem propagation_one_hop:
  "(draw_rr_toggle st = DRAW_NO_RR \<longrightarrow>
      draw_rr_node (highlight_rr_nodes_hit drives_it rr_node n st) =
        toggle_hit_node n (draw_rr_node st)) \<and>
   (draw_rr_toggle st \<noteq> DRAW_NO_RR \<and> n < length rr_node \<and>
    length (draw_rr_node st) = length rr_node \<and> edges_in_range rr_node \<and>
    \<not> is_fanout rr_node n n \<longrightarrow>
      length (draw_rr_node (highlight_rr_nodes_hit drives_it rr_node n st)) = length rr_node \<and>
      draw_rr_node (highlight_rr_nodes_hit drives_it rr_node n st) ! n =
        toggle_hit_node n (draw_rr_node st) ! n \<and>
      (color (toggle_hit_node n (draw_rr_node st) ! n) = MAGENTA \<or>
       color (toggle_hit_node n (draw_rr_node st) ! n) = WHITE) \<and>
      (\<forall>x. x < length rr_node \<and> x \<noteq> n \<longrightarrow>
         draw_rr_node (highlight_rr_nodes_hit drives_it rr_node n st) ! x =
           (if is_fanin rr_node n x
            then propagated (color (toggle_hit_node n (draw_rr_node st) ! n)) BLUE
                   (draw_rr_node st ! x)
            else if is_fanout rr_node n x
            then propagated (color (toggle_hit_node n (draw_rr_node st) ! n)) drives_it
                   (draw_rr_node st ! x)
            else draw_rr_node st ! x)))"
proof (intro conjI impI)
  assume "draw_rr_toggle st = DRAW_NO_RR"
  then show "draw_rr_node (highlight_rr_nodes_hit drives_it rr_node n st) =
        toggle_hit_node n (draw_rr_node st)"
    by (simp add: highlight_rr_nodes_hit_def)
next
  assume a: "draw_rr_toggle st \<noteq> DRAW_NO_RR \<and> n < length rr_node \<and>
    length (draw_rr_node st) = length rr_node \<and> edges_in_range rr_node \<and>
    \<not> is_fanout rr_node n n"
  then have g: "draw_rr_toggle st \<noteq> DRAW_NO_RR" and n: "n < length rr_node"
    and len: "length (draw_rr_node st) = length rr_node" and ns: "\<not> is_fanout rr_node n n"
    by simp_all
  show "length (draw_rr_node (highlight_rr_nodes_hit drives_it rr_node n st)) = length rr_node"
    using highlight_rr_nodes_hit_result(2)[OF g n len ns n] .
  show "draw_rr_node (highlight_rr_nodes_hit drives_it rr_node n st) ! n =
        toggle_hit_node n (draw_rr_node st) ! n"
    using highlight_rr_nodes_hit_result(1)[OF g n len ns n, of drives_it] by simp
  show "color (toggle_hit_node n (draw_rr_node st) ! n) = MAGENTA \<or>
       color (toggle_hit_node n (draw_rr_node st) ! n) = WHITE"
    using n len by (simp add: toggle_hit_node_nth)
  show "\<forall>x. x < length rr_node \<and> x \<noteq> n \<longrightarrow>
         draw_rr_node (highlight_rr_nodes_hit drives_it rr_node n st) ! x =
           (if is_fanin rr_node n x
            then propagated (color (toggle_hit_node n (draw_rr_node st) ! n)) BLUE
                   (draw_rr_node st ! x)
            else if is_fanout rr_node n x
            then propagated (color (toggle_hit_node n (draw_rr_node st) ! n)) drives_it
                   (draw_rr_node st ! x)
            else draw_rr_node st ! x)"
    using highlight_rr_nodes_hit_result(1)[OF g n len ns, of _ drives_it] by simp
qed

lemma ex_hl_props:
  "draw_rr_toggle (ex_hl_state DRAW_ALL_RR) \<noteq> DRAW_NO_RR \<and> (0::nat) < length ex_hl_graph \<and>
   length (draw_rr_node (ex_hl_state DRAW_ALL_RR)) = length ex_hl_graph \<and>
   edges_in_range ex_hl_graph \<and> \<not> is_fanout ex_hl_graph 0 0"
  by (simp add: ex_hl_state_def ex_hl_graph_def ex_node_def edges_in_range_def is_fanout_def)

theorem propagation_one_hop_witness:
  "draw_rr_toggle (ex_hl_state DRAW_ALL_RR) \<noteq> DRAW_NO_RR \<and> (0::nat) < length ex_hl_graph \<and>
   length (draw_rr_node (ex_hl_state DRAW_ALL_RR)) = length ex_hl_graph \<and>
   edges_in_range ex_hl_graph \<and> \<not> is_fanout ex_hl_graph 0 0 \<and>
   draw_rr_node (highlight_rr_nodes_hit RED ex_hl_graph 0 (ex_hl_state DRAW_ALL_RR)) ! 1 =
     \<lparr>color = RED, node_highlighted = True\<rparr> \<and>
   draw_rr_node (highlight_rr_nodes_hit RED ex_hl_graph 0 (ex_hl_state DRAW_ALL_RR)) ! 2 =
     \<lparr>color = BLACK, node_highlighted = False\<rparr>"
proof -
  note p = ex_hl_props
  have t: "toggle_hit_node 0 (draw_rr_node (ex_hl_state DRAW_ALL_RR)) ! 0 =
      \<lparr>color = MAGENTA, node_highlighted = True\<rparr>"
    by (simp add: toggle_hit_node_def set_rr_node_def ex_hl_state_def)
  have f: "\<not> is_fanin ex_hl_graph 0 1" "is_fanout ex_hl_graph 0 1"
    "\<not> is_fanin ex_hl_graph 0 2" "\<not> is_fanout ex_hl_graph 0 2"
    by (simp_all add: is_fanin_def is_fanout_def ex_hl_graph_def ex_node_def)
  have l: "(1::nat) < length ex_hl_graph" "(2::nat) < length ex_hl_graph"
    by (simp_all add: ex_hl_graph_def)
  have d: "draw_rr_node (ex_hl_state DRAW_ALL_RR) ! 1 = \<lparr>color = BLACK, node_highlighted = False\<rparr>"
    "draw_rr_node (ex_hl_state DRAW_ALL_RR) ! 2 = \<lparr>color = BLACK, node_highlighted = False\<rparr>"
    by (simp_all add: ex_hl_state_def)
  from propagation_one_hop[of "ex_hl_state DRAW_ALL_RR" RED ex_hl_graph 0] p
  have "\<forall>x. x < length ex_hl_graph \<and> x \<noteq> 0 \<longrightarrow>
         draw_rr_node (highlight_rr_nodes_hit RED ex_hl_graph 0 (ex_hl_state DRAW_ALL_RR)) ! x =
           (if is_fanin ex_hl_graph 0 x
            then propagated (color (toggle_hit_node 0 (draw_rr_node (ex_hl_state DRAW_ALL_RR)) ! 0)) BLUE
                   (draw_rr_node (ex_hl_state DRAW_ALL_RR) ! x)
            else if is_fanout ex_hl_graph 0 x
            then propagated (color (toggle_hit_node 0 (draw_rr_node (ex_hl_state DRAW_ALL_RR)) ! 0)) RED
                   (draw_rr_node (ex_hl_state DRAW_ALL_RR) ! x)
            else draw_rr_node (ex_hl_state DRAW_ALL_RR) ! x)"
    by blast
  from this[rule_format, of 1] this[rule_format, of 2] l f t d
  have "draw_rr_node (highlight_rr_nodes_hit RED ex_hl_graph 0 (ex_hl_state DRAW_ALL_RR)) ! 1 =
     \<lparr>color = RED, node_highlighted = True\<rparr>"
    "draw_rr_node (highlight_rr_nodes_hit RED ex_hl_graph 0 (ex_hl_state DRAW_ALL_RR)) ! 2 =
     \<lparr>color = BLACK, node_highlighted = False\<rparr>"
    by (simp_all add: propagated_def)
  with p show ?thesis by simp
qed

text \<open>
  With the RR graph hidden a click selects node 1 and leaves its fan-out node 2
  as it was. With the graph shown, node 2, which node 1 drives and which drives
  node 1, ends in the fan-in colour, not the fan-out colour. A node with an edge to
  itself ends in the fan-out colour, and the fan-out listed after that edge is
  not touched.
\<close>

theorem propagation_counterexample:
  "color (draw_rr_node (highlight_rr_nodes_hit RED ex_hl_graph 1 (ex_hl_state DRAW_NO_RR)) ! 1) = MAGENTA \<and>
   is_fanout ex_hl_graph 1 2 \<and>
   draw_rr_node (highlight_rr_nodes_hit RED ex_hl_graph 1 (ex_hl_state DRAW_NO_RR)) ! 2 =
     \<lparr>color = BLACK, node_highlighted = False\<rparr> \<and>
   color (draw_rr_node (highlight_rr_nodes_hit RED ex_hl_graph 1 (ex_hl_state DRAW_ALL_RR)) ! 1) = MAGENTA \<and>
   draw_rr_node (highlight_rr_nodes_hit RED ex_hl_graph 1 (ex_hl_state DRAW_ALL_RR)) ! 2 =
     \<lparr>color = BLUE, node_highlighted = True\<rparr> \<and>
   is_fanout ex_self_graph 0 1 \<and>
   draw_rr_node (highlight_rr_nodes_hit RED ex_self_graph 0
       (ex_hl_state DRAW_ALL_RR\<lparr>draw_rr_node := [\<lparr>color = BLACK, node_highlighted = False\<rparr>,
                                                  \<lparr>color = BLACK, node_highlighted = False\<rparr>]\<rparr>)) =
     [\<lparr>color = RED, node_highlighted = True\<rparr>, \<lparr>color = BLACK, node_highlighted = False\<rparr>]"
  by (simp add: highlight_rr_nodes_hit_def toggle_hit_node_def set_rr_node_def ex_hl_state_def
      ex_hl_graph_def ex_self_graph_def ex_node_def is_fanout_def draw_highlight_fan_in_fan_out_def
      highlight_fanout_edge_def highlight_fanin_node_def highlight_fanin_edge_def
      DEFAULT_RR_NODE_COLOR_def upt_rec)

section \<open>Properties of the hit test\<close>

lemma in_square_iff:
  "in_square (xcen, ycen) h x y \<longleftrightarrow>
     x \<ge> xcen - h \<and> x \<le> xcen + h \<and> y \<ge> ycen - h \<and> y \<le> ycen + h"
  by (auto simp: in_square_def abs_le_iff)

lemma pin_coords_defined:
  assumes "pin_tables_ok grid side_of node" "side_of iside \<noteq> None"
  shows "\<exists>c. draw_get_rr_pin_coords dc grid side_of node iside
              (width_offset (grid (xlow node) (ylow node)))
              (height_offset (grid (xlow node) (ylow node))) = Inr c"
proof -
  from assms(2) obtain s where s: "side_of iside = Some s" by auto
  show ?thesis
    using assms(1) s
    by (cases s) (simp_all add: draw_get_rr_pin_coords_def pin_tables_ok_def Let_def)
qed

lemma check_pin_sides_region:
  assumes "pin_tables_ok grid side_of node" "\<forall>iside \<in> set sides. side_of iside \<noteq> None"
  shows "check_pin_sides dc grid side_of node x y sides =
     Inr (list_ex (\<lambda>iside. pin_on_side grid node iside \<and>
        (case draw_get_rr_pin_coords dc grid side_of node iside
                (width_offset (grid (xlow node) (ylow node)))
                (height_offset (grid (xlow node) (ylow node))) of
           Inl e \<Rightarrow> False
         | Inr c \<Rightarrow> in_square c (pin_size dc) x y)) sides)"
  using assms(2)
proof (induction sides)
  case Nil
  then show ?case by simp
next
  case (Cons iside sides)
  then have "side_of iside \<noteq> None" by simp
  from pin_coords_defined[OF assms(1) this, of dc] obtain xcen ycen where
    c: "draw_get_rr_pin_coords dc grid side_of node iside
              (width_offset (grid (xlow node) (ylow node)))
              (height_offset (grid (xlow node) (ylow node))) = Inr (xcen, ycen)"
    by (metis surj_pair)
  from Cons have ih: "check_pin_sides dc grid side_of node x y sides =
     Inr (list_ex (\<lambda>iside. pin_on_side grid node iside \<and>
        (case draw_get_rr_pin_coords dc grid side_of node iside
                (width_offset (grid (xlow node) (ylow node)))
                (height_offset (grid (xlow node) (ylow node))) of
           Inl e \<Rightarrow> False
         | Inr c \<Rightarrow> in_square c (pin_size dc) x y)) sides)"
    by simp
  show ?case
    by (auto simp: c ih in_square_iff)
qed

lemma check_rr_node_region:
  assumes "\<not> is_pin node \<or> pin_tables_ok grid side_of node"
  shows "check_rr_node dc grid side_of node x y = Inr (hit_region dc grid side_of node x y)"
proof (cases "is_pin node")
  case True
  with assms have ok: "pin_tables_ok grid side_of node" by simp
  then have "\<forall>iside \<in> set [0, 1, 2, 3]. side_of iside \<noteq> None"
    by (simp add: pin_tables_ok_def)
  from check_pin_sides_region[OF ok this, of dc x y] True show ?thesis
    by (auto simp: check_rr_node_def hit_region_def pin_region_def is_pin_def)
next
  case False
  then show ?thesis
    by (cases "rr_type node")
       (simp_all add: check_rr_node_def hit_region_def chan_region_def is_pin_def tolerance_def)
qed

lemma hit_loop_first:
  assumes "rr_pins_ok grid side_of nodes"
  shows "\<exists>r. draw_check_rr_node_hit_from dc grid side_of x y i nodes = Inr r \<and>
           ((r = OPEN \<and> (\<forall>k<length nodes. \<not> hit_region dc grid side_of (nodes ! k) x y)) \<or>
            (\<exists>k<length nodes. r = i + int k \<and> hit_region dc grid side_of (nodes ! k) x y \<and>
                (\<forall>j<k. \<not> hit_region dc grid side_of (nodes ! j) x y)))"
  using assms
proof (induction nodes arbitrary: i)
  case Nil
  then show ?case by simp
next
  case (Cons node nodes)
  then have ok: "\<not> is_pin node \<or> pin_tables_ok grid side_of node"
    and oks: "rr_pins_ok grid side_of nodes"
    by (simp_all add: rr_pins_ok_def)
  note c = check_rr_node_region[OF ok, of dc x y]
  show ?case
  proof (cases "hit_region dc grid side_of node x y")
    case True
    then have "draw_check_rr_node_hit_from dc grid side_of x y i (node # nodes) = Inr i"
      using c by simp
    with True show ?thesis by (intro exI[of _ i]) auto
  next
    case False
    then have step: "draw_check_rr_node_hit_from dc grid side_of x y i (node # nodes) =
        draw_check_rr_node_hit_from dc grid side_of x y (i + 1) nodes"
      using c by simp
    from Cons.IH[OF oks, of "i + 1"] obtain r where
      r: "draw_check_rr_node_hit_from dc grid side_of x y (i + 1) nodes = Inr r"
         "(r = OPEN \<and> (\<forall>k<length nodes. \<not> hit_region dc grid side_of (nodes ! k) x y)) \<or>
            (\<exists>k<length nodes. r = i + 1 + int k \<and> hit_region dc grid side_of (nodes ! k) x y \<and>
                (\<forall>j<k. \<not> hit_region dc grid side_of (nodes ! j) x y))"
      by blast
    from r(2) show ?thesis
    proof
      assume a: "r = OPEN \<and> (\<forall>k<length nodes. \<not> hit_region dc grid side_of (nodes ! k) x y)"
      then have "\<forall>k<length (node # nodes). \<not> hit_region dc grid side_of ((node # nodes) ! k) x y"
        using False by (auto simp: less_Suc_eq_0_disj)
      moreover have "draw_check_rr_node_hit_from dc grid side_of x y i (node # nodes) = Inr r"
        using step r(1) by simp
      ultimately show ?thesis using a by blast
    next
      assume "\<exists>k<length nodes. r = i + 1 + int k \<and> hit_region dc grid side_of (nodes ! k) x y \<and>
                (\<forall>j<k. \<not> hit_region dc grid side_of (nodes ! j) x y)"
      then obtain k where k: "k < length nodes" "r = i + 1 + int k"
        "hit_region dc grid side_of (nodes ! k) x y"
        "\<forall>j<k. \<not> hit_region dc grid side_of (nodes ! j) x y" by blast
      have "\<forall>j<Suc k. \<not> hit_region dc grid side_of ((node # nodes) ! j) x y"
        using False k(4) by (auto simp: less_Suc_eq_0_disj)
      with k have "Suc k < length (node # nodes) \<and> r = i + int (Suc k) \<and>
          hit_region dc grid side_of ((node # nodes) ! Suc k) x y \<and>
          (\<forall>j<Suc k. \<not> hit_region dc grid side_of ((node # nodes) ! j) x y)"
        by simp
      moreover have "draw_check_rr_node_hit_from dc grid side_of x y i (node # nodes) = Inr r"
        using step r(1) by simp
      ultimately show ?thesis by blast
    qed
  qed
qed

lemma hit_region_not_source_sink:
  "hit_region dc grid side_of node x y \<Longrightarrow> rr_type node \<noteq> SOURCE \<and> rr_type node \<noteq> SINK"
  by (auto simp: hit_region_def)

text \<open>
  Claim C1. For every click point the hit test scans the nodes in increasing index
  order and returns the first node whose test region holds the point, where the
  region of an IPIN or OPIN node is the square of half-size \<open>pin_size\<close> around the
  pin's drawn coordinate on each side where the pin exists, and the region of a
  CHANX or CHANY node is its bounding box grown by 0.3 on all four sides. A SOURCE
  or SINK node is never returned, and when no region holds the point the result is
  \<open>OPEN\<close>.
\<close>

theorem hit_test_first_match:
  assumes "rr_pins_ok grid side_of rr_node"
  shows "\<exists>r. draw_check_rr_node_hit dc grid side_of rr_node x y = Inr r \<and>
           ((r = OPEN \<and> (\<forall>i<length rr_node. \<not> hit_region dc grid side_of (rr_node ! i) x y)) \<or>
            (0 \<le> r \<and> nat r < length rr_node \<and>
             hit_region dc grid side_of (rr_node ! nat r) x y \<and>
             (\<forall>j<nat r. \<not> hit_region dc grid side_of (rr_node ! j) x y) \<and>
             rr_type (rr_node ! nat r) \<noteq> SOURCE \<and> rr_type (rr_node ! nat r) \<noteq> SINK))"
proof -
  from hit_loop_first[OF assms, of dc x y 0] obtain r where
    r: "draw_check_rr_node_hit dc grid side_of rr_node x y = Inr r"
       "(r = OPEN \<and> (\<forall>k<length rr_node. \<not> hit_region dc grid side_of (rr_node ! k) x y)) \<or>
        (\<exists>k<length rr_node. r = 0 + int k \<and> hit_region dc grid side_of (rr_node ! k) x y \<and>
            (\<forall>j<k. \<not> hit_region dc grid side_of (rr_node ! j) x y))"
    unfolding draw_check_rr_node_hit_def by blast
  from r(2) show ?thesis
  proof
    assume "r = OPEN \<and> (\<forall>k<length rr_node. \<not> hit_region dc grid side_of (rr_node ! k) x y)"
    with r(1) show ?thesis by blast
  next
    assume "\<exists>k<length rr_node. r = 0 + int k \<and> hit_region dc grid side_of (rr_node ! k) x y \<and>
            (\<forall>j<k. \<not> hit_region dc grid side_of (rr_node ! j) x y)"
    then obtain k where k: "k < length rr_node" "r = int k"
      "hit_region dc grid side_of (rr_node ! k) x y"
      "\<forall>j<k. \<not> hit_region dc grid side_of (rr_node ! j) x y" by auto
    from k(3) have "rr_type (rr_node ! k) \<noteq> SOURCE \<and> rr_type (rr_node ! k) \<noteq> SINK"
      by (rule hit_region_not_source_sink)
    with k r(1) show ?thesis by auto
  qed
qed

lemma ex_pins_ok: "rr_pins_ok ex_grid ex_side_of ex_hit_graph"
  by (simp add: rr_pins_ok_def ex_hit_graph_def ex_node_def is_pin_def pin_tables_ok_def
      ex_grid_def ex_side_of_def signed_divide_int_def)

lemma ex_pin_coords:
  "draw_get_rr_pin_coords ex_coords ex_grid ex_side_of (ex_node OPIN [2] [0]) 2 0 0 = Inr (15, 30)"
  by (simp add: draw_get_rr_pin_coords_def ex_coords_def ex_grid_def ex_side_of_def ex_node_def
      signed_divide_int_def Let_def)

theorem hit_test_first_match_witness:
  "rr_pins_ok ex_grid ex_side_of ex_hit_graph \<and>
   draw_check_rr_node_hit ex_coords ex_grid ex_side_of ex_hit_graph 12 41 = Inr 2 \<and>
   hit_region ex_coords ex_grid ex_side_of (ex_hit_graph ! 2) 12 41 \<and>
   \<not> hit_region ex_coords ex_grid ex_side_of (ex_hit_graph ! 1) 12 41 \<and>
   draw_check_rr_node_hit ex_coords ex_grid ex_side_of ex_hit_graph (29 / 2) (61 / 2) = Inr 1 \<and>
   draw_check_rr_node_hit ex_coords ex_grid ex_side_of ex_hit_graph 0 0 = Inr OPEN"
proof -
  note ok = ex_pins_ok
  have v: "draw_check_rr_node_hit ex_coords ex_grid ex_side_of ex_hit_graph 12 41 = Inr 2"
    "draw_check_rr_node_hit ex_coords ex_grid ex_side_of ex_hit_graph (29 / 2) (61 / 2) = Inr 1"
    "draw_check_rr_node_hit ex_coords ex_grid ex_side_of ex_hit_graph 0 0 = Inr OPEN"
    by (simp_all add: draw_check_rr_node_hit_def check_rr_node_def ex_hit_graph_def ex_node_def
        pin_on_side_def ex_grid_def draw_get_rr_chan_bbox_def ex_coords_def tolerance_def
        draw_get_rr_pin_coords_def ex_side_of_def signed_divide_int_def Let_def OPEN_def)
  from hit_test_first_match[OF ok, of ex_coords 12 41] v(1)
  have "hit_region ex_coords ex_grid ex_side_of (ex_hit_graph ! 2) 12 41 \<and>
        (\<forall>j<2. \<not> hit_region ex_coords ex_grid ex_side_of (ex_hit_graph ! j) 12 41)"
    by (auto simp: OPEN_def)
  then have "hit_region ex_coords ex_grid ex_side_of (ex_hit_graph ! 2) 12 41"
    "\<not> hit_region ex_coords ex_grid ex_side_of (ex_hit_graph ! 1) 12 41"
    by simp_all
  with ok v show ?thesis by simp
qed

section \<open>Properties of the same-axis channel edges\<close>

text \<open>
  Two overlapping bidirectional wires on one axis whose ranges differ at either end
  get the same connecting segment from both directions.
\<close>

lemma chanx_edge_symmetric_unless_aligned:
  assumes "rr_type a = CHANX" "rr_type b = CHANX"
    "direction a = BI_DIRECTION" "direction b = BI_DIRECTION"
    "ranges_overlap (xlow a) (xhigh a) (xlow b) (xhigh b)"
    "xlow a \<noteq> xlow b \<or> xhigh a \<noteq> xhigh b"
  shows "\<exists>s t. draw_chanx_to_chanx_edge dc a b (ptc_num b) = Inr s \<and>
               draw_chanx_to_chanx_edge dc b a (ptc_num a) = Inr t \<and> same_segment s t"
  using assms
  by (auto simp: draw_chanx_to_chanx_edge_def draw_get_rr_chan_bbox_def ranges_overlap_def
      same_segment_def Let_def)

lemma chany_edge_symmetric_unless_aligned:
  assumes "rr_type a = CHANY" "rr_type b = CHANY"
    "direction a = BI_DIRECTION" "direction b = BI_DIRECTION"
    "ranges_overlap (ylow a) (yhigh a) (ylow b) (yhigh b)"
    "ylow a \<noteq> ylow b \<or> yhigh a \<noteq> yhigh b"
  shows "same_segment (draw_chany_to_chany_edge dc a b (ptc_num b))
                      (draw_chany_to_chany_edge dc b a (ptc_num a))"
  using assms
  by (auto simp: draw_chany_to_chany_edge_def draw_get_rr_chan_bbox_def ranges_overlap_def
      same_segment_def Let_def)

text \<open>
  Claim C8, evaluated where it fails. For two bidirectional wires on the same axis
  with overlapping ranges the segment drawn from A to B should have the same end
  points as the one drawn from B to A. When the two ranges are identical (the
  complete-overlap branch) and the wires lie on different tracks, the two segments
  cross each other instead: the end points differ.
\<close>

theorem chan_edge_aligned_asymmetric:
  "ranges_overlap (xlow (ex_chanx 0)) (xhigh (ex_chanx 0)) (xlow (ex_chanx 1)) (xhigh (ex_chanx 1)) \<and>
   draw_chanx_to_chanx_edge ex_coords (ex_chanx 0) (ex_chanx 1) 1 = Inr ((10, 37), (16, 38)) \<and>
   draw_chanx_to_chanx_edge ex_coords (ex_chanx 1) (ex_chanx 0) 0 = Inr ((10, 38), (16, 37)) \<and>
   \<not> same_segment ((10, 37), (16, 38)) ((10, 38), (16, 37)) \<and>
   ranges_overlap (ylow (ex_chany 0)) (yhigh (ex_chany 0)) (ylow (ex_chany 1)) (yhigh (ex_chany 1)) \<and>
   draw_chany_to_chany_edge ex_coords (ex_chany 0) (ex_chany 1) 1 = ((17, 20), (18, 26)) \<and>
   draw_chany_to_chany_edge ex_coords (ex_chany 1) (ex_chany 0) 0 = ((18, 20), (17, 26)) \<and>
   \<not> same_segment ((17, 20), (18, 26)) ((18, 20), (17, 26))"
  by (simp add: draw_chanx_to_chanx_edge_def draw_chany_to_chany_edge_def
      draw_get_rr_chan_bbox_def ranges_overlap_def same_segment_def ex_chanx_def ex_chany_def
      ex_coords_def Let_def)

section \<open>Properties of the trace flattening\<close>










section \<open>Properties of a click on a routing resource\<close>

lemma drawroute_nets_hidden:
  "\<forall>inet \<in> set inets. g_net_is_global g ! inet \<or> g_trace_head g ! inet = [] \<or>
       net_cols ! inet = BLACK \<Longrightarrow>
   drawroute_nets g HIGHLIGHTED route_type net_cols inets d = Inr d"
proof (induction inets)
  case Nil
  then show ?case by simp
next
  case (Cons inet inets)
  then have "drawroute_net g HIGHLIGHTED route_type (net_cols ! inet) inet d = Inr (d, [])"
    by (auto simp: drawroute_net_def split: list.splits)
  with Cons show ?case by simp
qed

lemma drawroute_hidden:
  "nets_hidden g st \<Longrightarrow> drawroute g HIGHLIGHTED st = Inr st"
  using drawroute_nets_hidden[of "[0 ..< length (g_trace_head g)]" g "net_color st"
      "draw_route_type st" "draw_rr_node st"]
  by (simp add: nets_hidden_def drawroute_def list_all_iff)

lemma draw_rr_loop_colors:
  "\<forall>inode \<in> set inodes. draw_rr_node_calls toggle dc rr_node inode = Inr () \<Longrightarrow>
   draw_rr_loop toggle dc rr_node inodes d =
     Inr (fold (\<lambda>inode d. d[inode := draw_rr_type_color (rr_node ! inode) (d ! inode)]) inodes d)"
  by (induction inodes arbitrary: d) simp_all

lemma hit_in_range:
  "draw_check_rr_node_hit_from dc grid side_of x y i nodes = Inr r \<Longrightarrow>
   r = OPEN \<or> (i \<le> r \<and> r < i + int (length nodes))"
proof (induction nodes arbitrary: i)
  case Nil
  then show ?case by simp
next
  case (Cons node nodes)
  show ?case
  proof (cases "check_rr_node dc grid side_of node x y")
    case (Inl e)
    with Cons.prems show ?thesis by simp
  next
    case (Inr b)
    show ?thesis
    proof (cases b)
      case True
      with Inr Cons.prems show ?thesis by simp
    next
      case False
      with Inr Cons.prems have
        "draw_check_rr_node_hit_from dc grid side_of x y (i + 1) nodes = Inr r" by simp
      from Cons.IH[OF this] show ?thesis by auto
    qed
  qed
qed

text \<open>The state a click on node \<open>n\<close> leaves when the RR graph is shown and no net is drawn.\<close>

lemma click_result:
  assumes view: "pic_on_screen st = ROUTING" "draw_rr_toggle st \<noteq> DRAW_NO_RR"
      "show_nets st = DRAW_NO_NETS" "show_crit_path st = DRAW_NO_CRIT_PATH"
    and hidden: "nets_hidden g st"
    and hit: "draw_check_rr_node_hit (g_draw_coords g) (g_grid g) (g_side_of g) (g_rr_node g) x y =
                Inr (int n)"
    and len: "length (draw_rr_node st) = length (g_rr_node g)"
    and noself: "\<not> is_fanout (g_rr_node g) n n"
    and draws: "rr_graph_draws (draw_rr_toggle st) (g_draw_coords g) (g_rr_node g)"
  shows "\<exists>st'. highlight_rr_nodes g x y st = Inr st' \<and>
           pic_on_screen st' = ROUTING \<and> draw_rr_toggle st' = draw_rr_toggle st \<and>
           show_nets st' = DRAW_NO_NETS \<and> show_crit_path st' = DRAW_NO_CRIT_PATH \<and>
           nets_hidden g st' \<and> length (draw_rr_node st') = length (g_rr_node g) \<and>
           (\<forall>m<length (g_rr_node g). draw_rr_node st' ! m =
              draw_rr_type_color (g_rr_node g ! m)
                (draw_rr_node (highlight_rr_nodes_hit (g_drives_it_color g) (g_rr_node g) n st) ! m))"
    and "n < length (g_rr_node g)"
proof -
  let ?rr = "g_rr_node g"
  let ?h = "highlight_rr_nodes_hit (g_drives_it_color g) ?rr n st"
  let ?f = "\<lambda>inode d. d[inode := draw_rr_type_color (?rr ! inode) (d ! inode)]"
  let ?d' = "fold ?f [0 ..< length ?rr] (draw_rr_node ?h)"
  let ?st' = "?h\<lparr>draw_rr_node := ?d'\<rparr>"
  from hit have "int n = OPEN \<or> (0 \<le> int n \<and> int n < 0 + int (length ?rr))"
    unfolding draw_check_rr_node_hit_def by (rule hit_in_range)
  then show n: "n < length ?rr" by (simp add: OPEN_def)
  note hr = highlight_rr_nodes_hit_result[OF view(2) n len noself, of _ "g_drives_it_color g"]
  have hl: "length (draw_rr_node ?h) = length ?rr" using hr(2)[OF n] .
  have fields: "pic_on_screen ?h = ROUTING" "draw_rr_toggle ?h = draw_rr_toggle st"
    "show_nets ?h = DRAW_NO_NETS" "show_crit_path ?h = DRAW_NO_CRIT_PATH"
    "net_color ?h = net_color st" "draw_route_type ?h = draw_route_type st"
    using view by (simp_all add: highlight_rr_nodes_hit_def)
  have loop: "draw_rr_loop (draw_rr_toggle st) (g_draw_coords g) ?rr [0 ..< length ?rr]
      (draw_rr_node ?h) = Inr ?d'"
    using draws by (intro draw_rr_loop_colors) (simp add: rr_graph_draws_def list_all_iff)
  have hid': "nets_hidden g ?st'" using hidden fields(5) by (simp add: nets_hidden_def)
  have rr: "draw_rr g ?h = Inr ?st'"
    using view(2) fields(2) loop drawroute_hidden[OF hid']
    by (simp add: draw_rr_def)
  have "redraw_screen g ?h = Inr ?st'"
    using rr fields by (simp add: redraw_screen_def draw_crit_path_def)
  then have click: "highlight_rr_nodes g x y st = Inr ?st'"
    using view hit by (simp add: highlight_rr_nodes_def drawscreen_def OPEN_def)
  have dl: "length ?d' = length ?rr"
    using hl fold_net_update_length[where f = "\<lambda>inode. draw_rr_type_color (?rr ! inode)"]
    by simp
  have nth: "\<forall>m<length ?rr. ?d' ! m = draw_rr_type_color (?rr ! m) (draw_rr_node ?h ! m)"
    using hl
      fold_net_update_upt[where n = "length ?rr" and ?nc0.0 = "draw_rr_node ?h"
        and f = "\<lambda>inode. draw_rr_type_color (?rr ! inode)"]
    by simp
  show "\<exists>st'. highlight_rr_nodes g x y st = Inr st' \<and>
           pic_on_screen st' = ROUTING \<and> draw_rr_toggle st' = draw_rr_toggle st \<and>
           show_nets st' = DRAW_NO_NETS \<and> show_crit_path st' = DRAW_NO_CRIT_PATH \<and>
           nets_hidden g st' \<and> length (draw_rr_node st') = length (g_rr_node g) \<and>
           (\<forall>m<length (g_rr_node g). draw_rr_node st' ! m =
              draw_rr_type_color (g_rr_node g ! m)
                (draw_rr_node (highlight_rr_nodes_hit (g_drives_it_color g) (g_rr_node g) n st) ! m))"
    using click fields hid' dl nth by (intro exI[of _ ?st']) simp
qed

text \<open>
  Claim C5 (amended). The routing picture shows the RR graph, no nets are shown or
  highlighted and no critical path is drawn; two clicks in a row hit node N, which
  was not selected and has no edge to itself, and their redraws return. Then the
  first click selects N, and after the second click N is not highlighted and every
  fan-in and fan-out neighbour of N is not highlighted and has the default colour
  of its node type: pink for an output pin, light sky blue for an input pin, black
  otherwise. So a neighbour has its old colour and flag again exactly when it was
  not highlighted and had that colour before, as every wire and pin is that a
  redraw found not highlighted; a neighbour that was highlighted before is not
  restored.
\<close>

theorem toggle_round_trip:
  assumes view: "pic_on_screen st = ROUTING" "draw_rr_toggle st \<noteq> DRAW_NO_RR"
      "show_nets st = DRAW_NO_NETS" "show_crit_path st = DRAW_NO_CRIT_PATH"
    and hidden: "nets_hidden g st"
    and hit: "draw_check_rr_node_hit (g_draw_coords g) (g_grid g) (g_side_of g) (g_rr_node g) x y =
                Inr (int n)"
    and len: "length (draw_rr_node st) = length (g_rr_node g)"
    and rng: "edges_in_range (g_rr_node g)"
    and noself: "\<not> is_fanout (g_rr_node g) n n"
    and draws: "rr_graph_draws (draw_rr_toggle st) (g_draw_coords g) (g_rr_node g)"
    and unsel: "color (draw_rr_node st ! n) \<noteq> MAGENTA"
  shows "\<exists>st1 st2.
           highlight_rr_nodes g x y st = Inr st1 \<and> highlight_rr_nodes g x y st1 = Inr st2 \<and>
           draw_rr_node st1 ! n = \<lparr>color = MAGENTA, node_highlighted = True\<rparr> \<and>
           \<not> node_highlighted (draw_rr_node st2 ! n) \<and>
           (\<forall>m. m < length (g_rr_node g) \<and> m \<noteq> n \<and>
                (is_fanin (g_rr_node g) n m \<or> is_fanout (g_rr_node g) n m) \<longrightarrow>
                draw_rr_node st2 ! m =
                  \<lparr>color = rr_idle_color (rr_type (g_rr_node g ! m)), node_highlighted = False\<rparr>)"
proof -
  let ?rr = "g_rr_node g"
  let ?drv = "g_drives_it_color g"
  from click_result[OF view hidden hit len noself draws] obtain st1 where
    c1: "highlight_rr_nodes g x y st = Inr st1"
    and v1: "pic_on_screen st1 = ROUTING" "draw_rr_toggle st1 = draw_rr_toggle st"
      "show_nets st1 = DRAW_NO_NETS" "show_crit_path st1 = DRAW_NO_CRIT_PATH"
    and h1: "nets_hidden g st1" and l1: "length (draw_rr_node st1) = length ?rr"
    and n1: "\<forall>m<length ?rr. draw_rr_node st1 ! m =
              draw_rr_type_color (?rr ! m) (draw_rr_node (highlight_rr_nodes_hit ?drv ?rr n st) ! m)"
    and n: "n < length ?rr"
    by blast
  note r1 = highlight_rr_nodes_hit_result(1)[OF view(2) n len noself, of _ ?drv]
  have t1: "toggle_hit_node n (draw_rr_node st) ! n = \<lparr>color = MAGENTA, node_highlighted = True\<rparr>"
    using n len unsel by (simp add: toggle_hit_node_nth)
  have s1n: "draw_rr_node st1 ! n = \<lparr>color = MAGENTA, node_highlighted = True\<rparr>"
    using n1 n r1[OF n] t1 by (simp add: draw_rr_type_color_def)
  have g1: "draw_rr_toggle st1 \<noteq> DRAW_NO_RR" using v1(2) view(2) by simp
  have d1: "rr_graph_draws (draw_rr_toggle st1) (g_draw_coords g) ?rr" using draws v1(2) by simp
  from click_result(1)[OF v1(1) g1 v1(3) v1(4) h1 hit l1 noself d1] obtain st2 where
    c2: "highlight_rr_nodes g x y st1 = Inr st2"
    and n2: "\<forall>m<length ?rr. draw_rr_node st2 ! m =
              draw_rr_type_color (?rr ! m) (draw_rr_node (highlight_rr_nodes_hit ?drv ?rr n st1) ! m)"
    by blast
  note r2 = highlight_rr_nodes_hit_result(1)[OF g1 n l1 noself, of _ ?drv]
  have t2: "toggle_hit_node n (draw_rr_node st1) ! n = \<lparr>color = WHITE, node_highlighted = False\<rparr>"
    using n l1 s1n by (simp add: toggle_hit_node_nth)
  have s2n: "\<not> node_highlighted (draw_rr_node st2 ! n)"
    using n2 n r2[OF n] t2 by (cases "rr_type (?rr ! n)") (simp_all add: draw_rr_type_color_def)
  have nb: "\<forall>m. m < length ?rr \<and> m \<noteq> n \<and> (is_fanin ?rr n m \<or> is_fanout ?rr n m) \<longrightarrow>
                draw_rr_node st2 ! m =
                  \<lparr>color = rr_idle_color (rr_type (?rr ! m)), node_highlighted = False\<rparr>"
  proof (intro allI impI)
    fix m assume a: "m < length ?rr \<and> m \<noteq> n \<and> (is_fanin ?rr n m \<or> is_fanout ?rr n m)"
    then have m: "m < length ?rr" and mn: "m \<noteq> n"
      and f: "is_fanin ?rr n m \<or> is_fanout ?rr n m" by simp_all
    have "draw_rr_node (highlight_rr_nodes_hit ?drv ?rr n st1) ! m =
        \<lparr>color = DEFAULT_RR_NODE_COLOR, node_highlighted = False\<rparr>"
      using r2[OF m] mn f t2 by (auto simp: propagated_def)
    with n2 m show "draw_rr_node st2 ! m =
        \<lparr>color = rr_idle_color (rr_type (?rr ! m)), node_highlighted = False\<rparr>"
      by (cases "rr_type (?rr ! m)")
         (simp_all add: draw_rr_type_color_def rr_idle_color_def DEFAULT_RR_NODE_COLOR_def)
  qed
  from c1 c2 s1n s2n nb show ?thesis by blast
qed

lemma ex_click_hits:
  "draw_check_rr_node_hit ex_coords ex_click_grid ex_side_of ex_click_graph 15 (145 / 4) = Inr 0"
  "draw_check_rr_node_hit ex_coords ex_click_grid ex_side_of ex_click_graph 12 37 = Inr 1"
  by (simp_all add: draw_check_rr_node_hit_def check_rr_node_def ex_click_graph_def ex_rr_def
      pin_on_side_def ex_click_grid_def draw_get_rr_chan_bbox_def ex_coords_def tolerance_def
      draw_get_rr_pin_coords_def ex_side_of_def signed_divide_int_def Let_def)

lemma ex_click_draws: "rr_graph_draws DRAW_ALL_RR ex_coords ex_click_graph"
  by (simp add: rr_graph_draws_def upt_rec draw_rr_node_calls_def draw_rr_edges_def
      draw_rr_edge_def ex_click_graph_def ex_rr_def draw_chanx_to_chanx_edge_def Let_def)

lemma ex_click_on:
  "highlight_rr_nodes ex_globals 15 (145 / 4) (ex_rr_view d) =
     redraw_screen ex_globals (highlight_rr_nodes_hit RED ex_click_graph 0 (ex_rr_view d))"
  "highlight_rr_nodes ex_globals 12 37 (ex_rr_view d) =
     redraw_screen ex_globals (highlight_rr_nodes_hit RED ex_click_graph 1 (ex_rr_view d))"
  by (simp_all add: highlight_rr_nodes_def drawscreen_def ex_globals_def ex_rr_view_def
      ex_click_hits OPEN_def)

lemmas click_eval =
  redraw_screen_def draw_crit_path_def draw_rr_def
  drawroute_def ex_globals_def ex_rr_view_def ex_nodes_def
  highlight_rr_nodes_hit_def toggle_hit_node_def set_rr_node_def
  draw_highlight_fan_in_fan_out_def highlight_fanout_edge_def highlight_fanin_node_def
  highlight_fanin_edge_def DEFAULT_RR_NODE_COLOR_def upt_rec
  draw_rr_node_calls_def draw_rr_edges_def draw_rr_edge_def draw_chanx_to_chanx_edge_def
  draw_rr_type_color_def ex_click_graph_def ex_rr_def Let_def

text \<open>
  From the state after a reset, a click on output pin 0 selects it. Wire 1, which
  the pin drives, is then selected and deselected by two clicks. The pin was
  magenta and highlighted before these two clicks; after them it is pink and not
  highlighted.
\<close>

theorem toggle_round_trip_counterexample:
  "highlight_rr_nodes ex_globals 15 (145 / 4)
     (ex_rr_view (ex_nodes [(BLACK, False), (BLACK, False), (BLACK, False), (BLACK, False)])) =
   Inr (ex_rr_view (ex_nodes [(MAGENTA, True), (RED, True), (BLACK, False), (LIGHTSKYBLUE, False)])) \<and>
   is_fanin ex_click_graph 1 0 \<and>
   highlight_rr_nodes ex_globals 12 37
     (ex_rr_view (ex_nodes [(MAGENTA, True), (RED, True), (BLACK, False), (LIGHTSKYBLUE, False)])) =
   Inr (ex_rr_view (ex_nodes [(BLUE, True), (MAGENTA, True), (BLUE, True), (LIGHTSKYBLUE, False)])) \<and>
   highlight_rr_nodes ex_globals 12 37
     (ex_rr_view (ex_nodes [(BLUE, True), (MAGENTA, True), (BLUE, True), (LIGHTSKYBLUE, False)])) =
   Inr (ex_rr_view (ex_nodes [(PINK, False), (BLACK, False), (BLACK, False), (LIGHTSKYBLUE, False)]))"
  unfolding ex_click_on by (simp add: click_eval is_fanin_def)

lemma ex_idle_props:
  "pic_on_screen (ex_rr_view d) = ROUTING \<and> draw_rr_toggle (ex_rr_view d) \<noteq> DRAW_NO_RR \<and>
   show_nets (ex_rr_view d) = DRAW_NO_NETS \<and> show_crit_path (ex_rr_view d) = DRAW_NO_CRIT_PATH \<and>
   nets_hidden ex_globals (ex_rr_view d) \<and>
   draw_check_rr_node_hit (g_draw_coords ex_globals) (g_grid ex_globals) (g_side_of ex_globals)
     (g_rr_node ex_globals) 12 37 = Inr (int 1) \<and>
   edges_in_range (g_rr_node ex_globals) \<and> \<not> is_fanout (g_rr_node ex_globals) 1 1 \<and>
   rr_graph_draws (draw_rr_toggle (ex_rr_view d)) (g_draw_coords ex_globals) (g_rr_node ex_globals)"
proof -
  have "edges_in_range ex_click_graph" "\<not> is_fanout ex_click_graph 1 1"
    by (simp_all add: edges_in_range_def is_fanout_def ex_click_graph_def ex_rr_def)
  then show ?thesis
    using ex_click_hits(2) ex_click_draws
    by (simp add: ex_rr_view_def ex_globals_def nets_hidden_def)
qed

theorem toggle_round_trip_witness:
  "pic_on_screen (ex_rr_view (ex_nodes [(PINK, False), (BLACK, False), (BLACK, False), (LIGHTSKYBLUE, False)])) = ROUTING \<and>
   draw_rr_toggle (ex_rr_view (ex_nodes [(PINK, False), (BLACK, False), (BLACK, False), (LIGHTSKYBLUE, False)])) \<noteq> DRAW_NO_RR \<and>
   nets_hidden ex_globals (ex_rr_view (ex_nodes [(PINK, False), (BLACK, False), (BLACK, False), (LIGHTSKYBLUE, False)])) \<and>
   draw_check_rr_node_hit (g_draw_coords ex_globals) (g_grid ex_globals) (g_side_of ex_globals)
     (g_rr_node ex_globals) 12 37 = Inr (int 1) \<and>
   rr_graph_draws DRAW_ALL_RR (g_draw_coords ex_globals) (g_rr_node ex_globals) \<and>
   is_fanin (g_rr_node ex_globals) 1 0 \<and> is_fanout (g_rr_node ex_globals) 1 2 \<and>
   (\<exists>st1 st2.
      highlight_rr_nodes ex_globals 12 37
        (ex_rr_view (ex_nodes [(PINK, False), (BLACK, False), (BLACK, False), (LIGHTSKYBLUE, False)])) = Inr st1 \<and>
      highlight_rr_nodes ex_globals 12 37 st1 = Inr st2 \<and>
      draw_rr_node st1 ! 1 = \<lparr>color = MAGENTA, node_highlighted = True\<rparr> \<and>
      draw_rr_node st2 ! 0 = \<lparr>color = PINK, node_highlighted = False\<rparr> \<and>
      draw_rr_node st2 ! 2 = \<lparr>color = BLACK, node_highlighted = False\<rparr>)"
proof -
  let ?d = "ex_nodes [(PINK, False), (BLACK, False), (BLACK, False), (LIGHTSKYBLUE, False)]"
  let ?S = "ex_rr_view ?d"
  let ?rr = "g_rr_node ex_globals"
  note p = ex_idle_props[of ?d]
  from p have h: "pic_on_screen ?S = ROUTING" "draw_rr_toggle ?S \<noteq> DRAW_NO_RR"
    "show_nets ?S = DRAW_NO_NETS" "show_crit_path ?S = DRAW_NO_CRIT_PATH"
    "nets_hidden ex_globals ?S"
    "draw_check_rr_node_hit (g_draw_coords ex_globals) (g_grid ex_globals) (g_side_of ex_globals)
       ?rr 12 37 = Inr (int 1)"
    "edges_in_range ?rr" "\<not> is_fanout ?rr 1 1"
    "rr_graph_draws (draw_rr_toggle ?S) (g_draw_coords ex_globals) ?rr"
    by simp_all
  have len: "length (draw_rr_node ?S) = length ?rr"
    by (simp add: ex_rr_view_def ex_nodes_def ex_globals_def ex_click_graph_def)
  have unsel: "color (draw_rr_node ?S ! 1) \<noteq> MAGENTA"
    by (simp add: ex_rr_view_def ex_nodes_def)
  have f: "is_fanin ?rr 1 0" "is_fanout ?rr 1 2" "(0::nat) < length ?rr" "(2::nat) < length ?rr"
    "rr_idle_color (rr_type (?rr ! 0)) = PINK" "rr_idle_color (rr_type (?rr ! 2)) = BLACK"
    by (simp_all add: is_fanin_def is_fanout_def ex_globals_def ex_click_graph_def ex_rr_def
        rr_idle_color_def DEFAULT_RR_NODE_COLOR_def)
  from toggle_round_trip[OF h(1-6) len h(7-9) unsel] obtain st1 st2 where
    r: "highlight_rr_nodes ex_globals 12 37 ?S = Inr st1"
       "highlight_rr_nodes ex_globals 12 37 st1 = Inr st2"
       "draw_rr_node st1 ! 1 = \<lparr>color = MAGENTA, node_highlighted = True\<rparr>"
       "\<forall>m. m < length ?rr \<and> m \<noteq> 1 \<and> (is_fanin ?rr 1 m \<or> is_fanout ?rr 1 m) \<longrightarrow>
           draw_rr_node st2 ! m =
             \<lparr>color = rr_idle_color (rr_type (?rr ! m)), node_highlighted = False\<rparr>"
    by blast
  from r(4)[rule_format, of 0] r(4)[rule_format, of 2] f have
    "draw_rr_node st2 ! 0 = \<lparr>color = PINK, node_highlighted = False\<rparr>"
    "draw_rr_node st2 ! 2 = \<lparr>color = BLACK, node_highlighted = False\<rparr>"
    by simp_all
  with r(1-3) have "\<exists>st1 st2.
      highlight_rr_nodes ex_globals 12 37 ?S = Inr st1 \<and>
      highlight_rr_nodes ex_globals 12 37 st1 = Inr st2 \<and>
      draw_rr_node st1 ! 1 = \<lparr>color = MAGENTA, node_highlighted = True\<rparr> \<and>
      draw_rr_node st2 ! 0 = \<lparr>color = PINK, node_highlighted = False\<rparr> \<and>
      draw_rr_node st2 ! 2 = \<lparr>color = BLACK, node_highlighted = False\<rparr>"
    by blast
  moreover have "rr_graph_draws DRAW_ALL_RR (g_draw_coords ex_globals) ?rr"
    using h(9) by (simp add: ex_rr_view_def)
  ultimately show ?thesis using h f(1,2) by simp
qed

end
